theory Spec2Isabelle
  imports Complex_Main
begin

section \<open>Types\<close>

text \<open>
  The records follow the TypeScript types \<open>Track\<close> and \<open>Station\<close>. The numbers they
  hold are given as reals (the values of the literals in the source); the arithmetic on
  them is a parameter, see below. The field \<open>weight\<close> is optional in the model because
  \<open>scoreTrack\<close> reads it as \<open>t.weight ?? 1\<close>. A \<open>Record<string, number>\<close> is the
  association list of its own keys.
\<close>

record Track =
  id_track :: string
  name :: string
  fileName :: string
  url :: string
  tags :: "string list"
  weight :: "real option"

record Station =
  name_station :: string
  description :: string
  tagWeights :: "(string \<times> real) list"
  crossfadeDefaultSec :: real

text \<open>The entries of the constant \<open>STATIONS\<close>, and the constant.\<close>

definition AllField :: Station where
  "AllField =
     \<lparr>name_station = ''All Field'',
      description = ''A broad shuffle across the whole archive.'',
      tagWeights = [],
      crossfadeDefaultSec = 6\<rparr>"

definition CampfireDrift :: Station where
  "CampfireDrift =
     \<lparr>name_station = ''Campfire Drift'',
      description = ''Crackle-forward, night-songs, drum edges, human warmth.'',
      tagWeights = [(''campfire'', 4), (''night'', 3), (''crickets'', 2), (''drum'', 2),
                    (''guitar'', 2), (''fiddle'', 2), (''flute'', 1), (''crowd'', 1),
                    (''chant'', 1)],
      crossfadeDefaultSec = 7\<rparr>"

definition KitchenRadio :: Station where
  "KitchenRadio =
     \<lparr>name_station = ''Kitchen Radio'',
      description = ''Work-as-rhythm: voices, clatter, logistics, mutual-aid energy.'',
      tagWeights = [(''kitchen'', 5), (''voice'', 3), (''interview'', 3), (''story'', 2),
                    (''crowd'', 2), (''evening'', 1)],
      crossfadeDefaultSec = 5\<rparr>"

definition DawnSoundTrail :: Station where
  "DawnSoundTrail =
     \<lparr>name_station = ''Dawn Sound-Trail'',
      description = ''Birds, wind, river: gentle waking woods.'',
      tagWeights = [(''dawn'', 5), (''birds'', 4), (''wind'', 3), (''river'', 3),
                    (''rain'', 2), (''silence'', 1), (''morning'', 2)],
      crossfadeDefaultSec = 9\<rparr>"

definition NightTrail :: Station where
  "NightTrail =
     \<lparr>name_station = ''Night Trail'',
      description = ''Dark woods, distant drums, crickets: slow luminous drift.'',
      tagWeights = [(''night'', 5), (''crickets'', 4), (''campfire'', 2), (''drum'', 2),
                    (''chant'', 2), (''wind'', 1), (''crowd'', 1), (''silence'', 1)],
      crossfadeDefaultSec = 8\<rparr>"

definition STATIONS :: "Station list" where
  "STATIONS = [AllField, CampfireDrift, KitchenRadio, DawnSoundTrail, NightTrail]"

section \<open>Utilities\<close>

text \<open>
  Strings are lists of 8-bit characters, read as the code points U+0000 to U+00FF.
  \<open>is_space\<close> is the part of the regular expression class \<open>\s\<close> (and of what \<open>trim\<close>
  strips) in that range; \<open>toLowerCase_char\<close> is \<open>String.prototype.toLowerCase\<close> there.
\<close>

definition is_space :: "char \<Rightarrow> bool" where
  "is_space c = (of_char c \<in> {9, 10, 11, 12, 13, 32, 160 :: nat})"

definition toLowerCase_char :: "char \<Rightarrow> char" where
  "toLowerCase_char c =
     (let n = (of_char c :: nat)
      in if (65 \<le> n \<and> n \<le> 90) \<or> (192 \<le> n \<and> n \<le> 222 \<and> n \<noteq> 215)
         then char_of (n + 32) else c)"

definition trim :: "string \<Rightarrow> string" where
  "trim s = rev (dropWhile is_space (rev (dropWhile is_space s)))"

text \<open>\<open>replace(/\s+/g, " ")\<close>: every maximal run of white space becomes one blank.\<close>

function collapse_spaces :: "string \<Rightarrow> string" where
  "collapse_spaces [] = []"
| "collapse_spaces (c # cs) =
     (if is_space c then CHR '' '' # collapse_spaces (dropWhile is_space cs)
      else c # collapse_spaces cs)"
  by pat_completeness auto
termination
  by (relation "measure length") (auto simp: length_dropWhile_le less_Suc_eq_le)

text \<open>The characters that \<open>replace(/[^a-z0-9\- _]/g, "")\<close> keeps.\<close>

definition tag_char :: "char \<Rightarrow> bool" where
  "tag_char c =
     (let n = (of_char c :: nat)
      in (97 \<le> n \<and> n \<le> 122) \<or> (48 \<le> n \<and> n \<le> 57) \<or> n = 45 \<or> n = 32 \<or> n = 95)"

definition normalizeTag :: "string \<Rightarrow> string" where
  "normalizeTag s = filter tag_char (collapse_spaces (trim (map toLowerCase_char s)))"

text \<open>
  \<open>items[i]\<close> for a JavaScript number \<open>i\<close> that is an integer: \<open>undefined\<close> (here \<open>None\<close>)
  outside the array.
\<close>

definition item_at :: "'a list \<Rightarrow> int \<Rightarrow> 'a option" where
  "item_at xs i = (if 0 \<le> i \<and> i < int (length xs) then Some (xs ! nat i) else None)"

section \<open>Numbers\<close>

text \<open>
  The arithmetic of JavaScript numbers is a parameter of the selection: the number that a
  literal or an array length denotes, \<open>NaN\<close>, the operators \<open>+\<close>, \<open>-\<close>, \<open>*\<close> and \<open><=\<close>,
  \<open>Math.max\<close>, \<open>Math.min\<close>, and \<open>Math.floor\<close> as far as its result serves as an array
  index (\<open>None\<close> when it is not an integer, as for \<open>NaN\<close>). What is proved for every such
  arithmetic holds for the platform's IEEE doubles, with their rounding, infinities and
  \<open>NaN\<close>.
\<close>

record 'n arith =
  js_num :: "real \<Rightarrow> 'n"
  js_nan :: 'n
  js_add :: "'n \<Rightarrow> 'n \<Rightarrow> 'n"
  js_sub :: "'n \<Rightarrow> 'n \<Rightarrow> 'n"
  js_mul :: "'n \<Rightarrow> 'n \<Rightarrow> 'n"
  js_max :: "'n \<Rightarrow> 'n \<Rightarrow> 'n"
  js_min :: "'n \<Rightarrow> 'n \<Rightarrow> 'n"
  js_le :: "'n \<Rightarrow> 'n \<Rightarrow> bool"
  js_floor :: "'n \<Rightarrow> int option"

text \<open>
  The arithmetic of the real numbers, with \<open>None\<close> for \<open>NaN\<close>: \<open>NaN\<close> is the result of
  every operation on it and compares false. It rounds nothing; the platform computes the
  same values wherever its results are exact.
\<close>

definition lift2 :: "(real \<Rightarrow> real \<Rightarrow> real) \<Rightarrow> real option \<Rightarrow> real option \<Rightarrow> real option" where
  "lift2 f a b = (case a of None \<Rightarrow> None | Some x \<Rightarrow> (case b of None \<Rightarrow> None | Some y \<Rightarrow> Some (f x y)))"

definition exact :: "real option arith" where
  "exact =
     \<lparr>js_num = Some, js_nan = None,
      js_add = lift2 (+), js_sub = lift2 (-), js_mul = lift2 (*),
      js_max = lift2 max, js_min = lift2 min,
      js_le = (\<lambda>a b. case a of None \<Rightarrow> False
                        | Some x \<Rightarrow> (case b of None \<Rightarrow> False | Some y \<Rightarrow> x \<le> y)),
      js_floor = map_option floor\<rparr>"

text \<open>
  The arithmetic of IEEE 754 double precision on numbers whose magnitude stays between
  \<open>2^-1022\<close> and \<open>2^1024\<close>: every literal and every result of \<open>+\<close>, \<open>-\<close> and \<open>*\<close> is
  rounded to 53 significant bits, to the nearest value and to the even one at a tie.
  Overflow to infinity and gradual underflow are left out; nothing below comes near them.
\<close>

definition rne :: "real \<Rightarrow> int" where
  "rne y =
     (let f = \<lfloor>y\<rfloor>; d = y - of_int f
      in if d < 1 / 2 then f else if 1 / 2 < d then f + 1 else if even f then f else f + 1)"

definition round53 :: "real \<Rightarrow> real" where
  "round53 x =
     (if x = 0 then 0
      else let q = 2 powr (of_int \<lfloor>log 2 \<bar>x\<bar>\<rfloor> - 52) in of_int (rne (x / q)) * q)"

definition binary64 :: "real option arith" where
  "binary64 =
     \<lparr>js_num = (\<lambda>x. Some (round53 x)), js_nan = None,
      js_add = lift2 (\<lambda>a b. round53 (a + b)),
      js_sub = lift2 (\<lambda>a b. round53 (a - b)),
      js_mul = lift2 (\<lambda>a b. round53 (a * b)),
      js_max = lift2 max, js_min = lift2 min,
      js_le = (\<lambda>a b. case a of None \<Rightarrow> False
                        | Some x \<Rightarrow> (case b of None \<Rightarrow> False | Some y \<Rightarrow> x \<le> y)),
      js_floor = map_option floor\<rparr>"

section \<open>Weighted pick\<close>

text \<open>
  The \<open>for\<close> loop of \<open>weightedPick\<close>, on the items and weights from index \<open>i\<close> onwards and
  the running remainder \<open>r\<close>. \<open>None\<close> means that the loop ran to its end without returning.
  Where the weights are shorter than the items, \<open>weights[i]\<close> is \<open>undefined\<close>, which
  \<open>Math.max\<close> reads as \<open>NaN\<close>.
\<close>

fun weightedPick_loop :: "'n arith \<Rightarrow> 'a list \<Rightarrow> 'n list \<Rightarrow> 'n \<Rightarrow> 'a option" where
  "weightedPick_loop ar [] ws r = None"
| "weightedPick_loop ar (x # xs) ws r =
     (let w = (case ws of [] \<Rightarrow> js_nan ar | w # _ \<Rightarrow> w);
          r' = js_sub ar r (js_max ar (js_num ar 0) w)
      in if js_le ar r' (js_num ar 0) then Some x else weightedPick_loop ar xs (tl ws) r')"

text \<open>
  \<open>weightedPick\<close>, with its \<open>weights.reduce((a, w) => a + Math.max(0, w), 0)\<close> first.
  The argument \<open>rnd\<close> is the value of the one call of \<open>Math.random()\<close> that either
  branch makes.
\<close>

definition total_weight :: "'n arith \<Rightarrow> 'n list \<Rightarrow> 'n" where
  "total_weight ar weights =
     foldl (\<lambda>a w. js_add ar a (js_max ar (js_num ar 0) w)) (js_num ar 0) weights"

definition weightedPick :: "'n arith \<Rightarrow> 'a list \<Rightarrow> 'n list \<Rightarrow> 'n \<Rightarrow> 'a option" where
  "weightedPick ar items weights rnd =
     (let total = total_weight ar weights
      in if js_le ar total (js_num ar 0)
         then (case js_floor ar (js_mul ar rnd (js_num ar (real (length items)))) of
                 None \<Rightarrow> None
               | Some i \<Rightarrow> item_at items i)
         else (case weightedPick_loop ar items weights (js_mul ar rnd total) of
                 Some x \<Rightarrow> Some x
               | None \<Rightarrow> item_at items (int (length items) - 1)))"

text \<open>
  The value of \<open>r\<close> after \<open>k\<close> rounds of the loop that started with the draw \<open>r0\<close>.
\<close>

definition remainder :: "'n arith \<Rightarrow> 'n list \<Rightarrow> 'n \<Rightarrow> nat \<Rightarrow> 'n" where
  "remainder ar ws r0 k =
     foldl (\<lambda>r w. js_sub ar r (js_max ar (js_num ar 0) w)) r0 (take k ws)"

section \<open>Station-weighted selection\<close>

text \<open>
  \<open>tw[key]\<close> on the object literal of a station: the number under an own key, else what
  the key finds on \<open>Object.prototype\<close> (a function, or for \<open>__proto__\<close> the prototype
  itself), else \<open>undefined\<close>. Only the last is \<open>== null\<close>.
\<close>

datatype property = Undefined | Own real | Inherited

definition Object_prototype_keys :: "string list" where
  "Object_prototype_keys =
     [''constructor'', ''__defineGetter__'', ''__defineSetter__'', ''hasOwnProperty'',
      ''__lookupGetter__'', ''__lookupSetter__'', ''isPrototypeOf'',
      ''propertyIsEnumerable'', ''toString'', ''valueOf'', ''__proto__'',
      ''toLocaleString'']"

definition get_prop :: "(string \<times> real) list \<Rightarrow> string \<Rightarrow> property" where
  "get_prop tw key =
     (case map_of tw key of
        Some v \<Rightarrow> Own v
      | None \<Rightarrow> if key \<in> set Object_prototype_keys then Inherited else Undefined)"

text \<open>
  The variable \<open>w\<close> of \<open>scoreTrack\<close>: a number, or, once \<open>+=\<close> has added a function or an
  object to it, a string. Such a string stays a string under \<open>+=\<close>, and as a number it
  is \<open>NaN\<close>.
\<close>

datatype 'n jsval = Num 'n | Str

definition plus :: "'n arith \<Rightarrow> 'n jsval \<Rightarrow> 'n \<Rightarrow> 'n jsval" where
  "plus ar w x = (case w of Num a \<Rightarrow> Num (js_add ar a x) | Str \<Rightarrow> Str)"

definition to_number :: "'n arith \<Rightarrow> 'n jsval \<Rightarrow> 'n" where
  "to_number ar w = (case w of Num a \<Rightarrow> a | Str \<Rightarrow> js_nan ar)"

text \<open>The loop \<open>for (const tag of t.tags)\<close> of \<open>scoreTrack\<close>, on the running score \<open>w\<close>.\<close>

fun add_tag_weights :: "'n arith \<Rightarrow> (string \<times> real) list \<Rightarrow> string list \<Rightarrow> 'n jsval \<Rightarrow> 'n jsval" where
  "add_tag_weights ar tw [] w = w"
| "add_tag_weights ar tw (tag # rest) w =
     (let key = normalizeTag tag
      in add_tag_weights ar tw rest
           (case get_prop tw key of
              Undefined \<Rightarrow> w
            | Own v \<Rightarrow> plus ar w (js_num ar v)
            | Inherited \<Rightarrow> Str))"

text \<open>The test \<open>nowPlaying?.id && t.id === nowPlaying.id\<close>; an empty string is falsy.\<close>

definition is_repeat :: "Track option \<Rightarrow> Track \<Rightarrow> bool" where
  "is_repeat nowPlaying t =
     (case nowPlaying of
        None \<Rightarrow> False
      | Some np \<Rightarrow> id_track np \<noteq> [] \<and> id_track t = id_track np)"

text \<open>
  \<open>scoreTrack\<close>; the station and the track now playing, which the source reads from the
  component's state, are arguments.
\<close>

definition scoreTrack :: "'n arith \<Rightarrow> Station \<Rightarrow> Track option \<Rightarrow> Track \<Rightarrow> 'n" where
  "scoreTrack ar station nowPlaying t =
     (let w0 = Num (js_num ar (case weight t of Some v \<Rightarrow> v | None \<Rightarrow> 1));
          tw = tagWeights station;
          hasWeights = (tw \<noteq> []);
          n = js_num ar (real (length (tags t)));
          w1 = (if hasWeights
                then plus ar (add_tag_weights ar tw (tags t) w0)
                       (js_min ar (js_num ar 2) (js_mul ar n (js_num ar 0.15)))
                else plus ar w0 (js_min ar (js_num ar 2) (js_mul ar n (js_num ar 0.25))));
          w2 = (if is_repeat nowPlaying t
                then Num (js_mul ar (to_number ar w1) (js_num ar 0.05))
                else w1)
      in js_max ar (js_num ar 0) (to_number ar w2))"

definition pickNextTrack :: "'n arith \<Rightarrow> Track list \<Rightarrow> Station \<Rightarrow> Track option \<Rightarrow> 'n \<Rightarrow> Track option" where
  "pickNextTrack ar tracks station nowPlaying rnd =
     (if length tracks = 0 then None
      else if length tracks = 1 then item_at tracks 0
      else weightedPick ar tracks (map (scoreTrack ar station nowPlaying) tracks) rnd)"

subsection \<open>The score in the words of the specification\<close>

text \<open>
  The specification's scoring rule, read literally: a tag counts when the tag itself is a
  key of the mapping, and the repeat factor applies when the track has the identifier of
  the track now playing. It is compared with \<open>scoreTrack\<close> below.
\<close>

definition is_current :: "Track option \<Rightarrow> Track \<Rightarrow> bool" where
  "is_current nowPlaying t =
     (case nowPlaying of None \<Rightarrow> False | Some np \<Rightarrow> id_track t = id_track np)"


subsection \<open>Sample tracks\<close>

text \<open>
  A track as \<open>loadFromIA\<close> builds it from a file of the archive item, with the given
  identifier, tags and weight.
\<close>

definition sample_track :: "string \<Rightarrow> string list \<Rightarrow> real \<Rightarrow> Track" where
  "sample_track i tgs w =
     \<lparr>id_track = i, name = ''take'', fileName = ''take.mp3'',
      url = ''https://archive.org/download/soundsfromtherainbow2000-2025/take.mp3'',
      tags = tgs, weight = Some w\<rparr>"

text \<open>
  The track that \<open>loadFromIA\<close> builds from the file with the given path (one that
  \<open>encodeURIComponent\<close> leaves as it is): the identifier is a value of \<open>uid()\<close>, the name
  is the leaf without its extension, the tags are those of \<open>inferTagsFromPath\<close>, the
  weight is 1.
\<close>

definition archive_track :: "string \<Rightarrow> string \<Rightarrow> string \<Rightarrow> string list \<Rightarrow> Track" where
  "archive_track i leaf full tgs =
     \<lparr>id_track = i, name = leaf, fileName = full,
      url = ''https://archive.org/download/soundsfromtherainbow2000-2025/'' @ full,
      tags = tgs, weight = Some 1\<rparr>"

section \<open>Crossfade engine\<close>

text \<open>
  \<open>audio.duration\<close> is \<open>NaN\<close> while unknown and \<open>Infinity\<close> for an unbounded stream.
\<close>

datatype jsnum = NaN | Infinity | Finite real

text \<open>
  The React state of the component \<open>App\<close> that playback reads or writes. Every function
  of the component is a closure over the values of the render that created it, so the
  functions below take such a snapshot as their argument \<open>env\<close>, while the state setters
  write to the latest state. The library-loading state (\<open>status\<close>, \<open>error\<close>, \<open>debug\<close>) is
  touched by \<open>loadFromIA\<close> only and is left out.
\<close>

record Render =
  tracks :: "Track list"
  stationName :: string
  nowPlaying :: "Track option"
  isPlaying :: bool
  radioMode :: bool
  volume :: real
  crossfadeSec :: real

text \<open>
  An \<open>HTMLAudioElement\<close>, with the \<open>onended\<close> handler as the snapshot it closes over, and
  a \<open>Deck\<close>. Of the gain node the model keeps the value last assigned to \<open>gain.gain.value\<close>
  and the ramp last scheduled by \<open>rampGain\<close> (target and length in seconds).
\<close>

record Audio =
  src :: string
  currentTime :: real
  duration :: jsnum
  paused :: bool
  audio_volume :: real
  onended :: "Render option"

record Deck =
  audio :: Audio
  gain :: real
  ramp :: "(real \<times> real) option"
  track :: "Track option"

datatype DeckId = DeckA | DeckB

datatype CtxState = Running | Suspended

text \<open>
  \<open>ctxRef\<close>, \<open>deckARef\<close> and \<open>deckBRef\<close> are assigned together, in \<open>ensureCtx\<close>, and
  nowhere else: the model holds them in one optional record.
\<close>

record Graph =
  ctx :: CtxState
  deckA :: Deck
  deckB :: Deck

text \<open>
  Pending \<open>setTimeout\<close> callbacks: the one of \<open>playTrack\<close> that pauses the outgoing deck
  and the one of \<open>startTick\<close> that clears \<open>pendingFadeRef\<close>.
\<close>

datatype TimerAction = PauseAudio DeckId | ReleasePendingFade

text \<open>
  The engine: the latest React state, the refs, a clock in milliseconds and the pending
  timeouts with their due times. \<open>tickRef\<close> holds the snapshot that the interval's
  callback closes over.
\<close>

record Engine =
  render :: Render
  graphRef :: "Graph option"
  activeRef :: DeckId
  tickRef :: "Render option"
  pendingFadeRef :: bool
  now :: real
  timers :: "(real \<times> TimerAction) list"

text \<open>
  What a call cannot know beforehand: the value of \<open>Math.random()\<close>, the state of a newly
  built \<open>AudioContext\<close>, and whether \<open>ctx.resume()\<close>, the \<open>cur.audio.play()\<close> of \<open>play\<close>
  and the \<open>nxt.audio.play()\<close> of \<open>playTrack\<close> fulfil, with the duration of the medium
  once it plays. The engine's times, gains and positions are real numbers, and it draws
  the next track in the arithmetic \<open>exact\<close>.
\<close>

record World =
  math_random :: real
  ctx_initial :: CtxState
  ctx_resume_ok :: bool
  resume_ok :: bool
  start_ok :: bool
  media_duration :: jsnum

datatype settled = Fulfilled | Rejected

text \<open>The initial values of the \<open>useState\<close> and \<open>useRef\<close> calls.\<close>

definition initial_render :: Render where
  "initial_render =
     \<lparr>tracks = [], stationName = name_station AllField, nowPlaying = None,
      isPlaying = False, radioMode = True, volume = 0.9,
      crossfadeSec = crossfadeDefaultSec AllField\<rparr>"

definition initial_engine :: Engine where
  "initial_engine =
     \<lparr>render = initial_render, graphRef = None, activeRef = DeckA, tickRef = None,
      pendingFadeRef = False, now = 0, timers = []\<rparr>"

text \<open>\<open>STATIONS.find((s) => s.name === stationName) ?? STATIONS[0]\<close>\<close>

definition station :: "Render \<Rightarrow> Station" where
  "station r =
     (case find (\<lambda>s. name_station s = stationName r) STATIONS of
        Some s \<Rightarrow> s
      | None \<Rightarrow> AllField)"

definition other_deck :: "DeckId \<Rightarrow> DeckId" where
  "other_deck i = (case i of DeckA \<Rightarrow> DeckB | DeckB \<Rightarrow> DeckA)"

definition deck_of :: "DeckId \<Rightarrow> Graph \<Rightarrow> Deck" where
  "deck_of i g = (case i of DeckA \<Rightarrow> deckA g | DeckB \<Rightarrow> deckB g)"

definition activeDeck :: "Engine \<Rightarrow> Deck option" where
  "activeDeck s = map_option (deck_of (activeRef s)) (graphRef s)"

definition inactiveDeck :: "Engine \<Rightarrow> Deck option" where
  "inactiveDeck s = map_option (deck_of (other_deck (activeRef s))) (graphRef s)"

text \<open>A write to a deck through its reference; nothing happens while the ref is null.\<close>

definition update_deck :: "DeckId \<Rightarrow> (Deck \<Rightarrow> Deck) \<Rightarrow> Engine \<Rightarrow> Engine" where
  "update_deck i f s =
     s\<lparr>graphRef :=
         map_option
           (\<lambda>g. case i of DeckA \<Rightarrow> g\<lparr>deckA := f (deckA g)\<rparr> | DeckB \<Rightarrow> g\<lparr>deckB := f (deckB g)\<rparr>)
           (graphRef s)\<rparr>"

definition pause_audio :: "Deck \<Rightarrow> Deck" where
  "pause_audio d = d\<lparr>audio := (audio d)\<lparr>paused := True\<rparr>\<rparr>"

definition createDeck :: Deck where
  "createDeck =
     \<lparr>audio = \<lparr>src = [], currentTime = 0, duration = NaN, paused = True,
               audio_volume = 1, onended = None\<rparr>,
      gain = 0, ramp = None, track = None\<rparr>"

definition rampGain :: "real \<Rightarrow> real \<Rightarrow> Deck \<Rightarrow> Deck" where
  "rampGain to seconds d = d\<lparr>ramp := Some (to, max 0.01 seconds)\<rparr>"

definition ensureCtx :: "Render \<Rightarrow> World \<Rightarrow> Engine \<Rightarrow> Engine" where
  "ensureCtx env w s =
     (let g = (case graphRef s of
                 None \<Rightarrow>
                   \<lparr>ctx = ctx_initial w,
                    deckA = createDeck\<lparr>audio := (audio createDeck)\<lparr>audio_volume := volume env\<rparr>\<rparr>,
                    deckB = createDeck\<lparr>audio := (audio createDeck)\<lparr>audio_volume := volume env\<rparr>\<rparr>\<rparr>
               | Some g \<Rightarrow> g)
      in s\<lparr>graphRef :=
             Some (if ctx g = Suspended \<and> ctx_resume_ok w then g\<lparr>ctx := Running\<rparr> else g)\<rparr>)"

definition setTimeout :: "real \<Rightarrow> TimerAction \<Rightarrow> Engine \<Rightarrow> Engine" where
  "setTimeout delay a s = s\<lparr>timers := timers s @ [(now s + delay, a)]\<rparr>"

fun fire :: "TimerAction \<Rightarrow> Engine \<Rightarrow> Engine" where
  "fire (PauseAudio i) s = update_deck i pause_audio s"
| "fire ReleasePendingFade s = s\<lparr>pendingFadeRef := False\<rparr>"

text \<open>
  The passing of \<open>dt\<close> milliseconds: the timeouts that have come due run, in the order of
  their due times (registration order among equals).
\<close>

definition elapse :: "real \<Rightarrow> Engine \<Rightarrow> Engine" where
  "elapse dt s =
     (let t = now s + dt;
          due = sort_key fst (filter (\<lambda>e. fst e \<le> t) (timers s));
          rest = filter (\<lambda>e. \<not> fst e \<le> t) (timers s)
      in foldl (\<lambda>s' e. fire (snd e) s') (s\<lparr>now := t, timers := rest\<rparr>) due)"

subsection \<open>Playback + Crossfade\<close>

definition stopTick :: "Engine \<Rightarrow> Engine" where
  "stopTick s = s\<lparr>tickRef := None\<rparr>"

definition startTick :: "Render \<Rightarrow> Engine \<Rightarrow> Engine" where
  "startTick env s = (if tickRef s \<noteq> None then s else s\<lparr>tickRef := Some env\<rparr>)"

definition setIsPlaying :: "bool \<Rightarrow> Engine \<Rightarrow> Engine" where
  "setIsPlaying b s = s\<lparr>render := (render s)\<lparr>isPlaying := b\<rparr>\<rparr>"

definition setNowPlaying :: "Track option \<Rightarrow> Engine \<Rightarrow> Engine" where
  "setNowPlaying t s = s\<lparr>render := (render s)\<lparr>nowPlaying := t\<rparr>\<rparr>"

text \<open>
  \<open>playTrack\<close>. Loading resets the element (position 0, duration unknown, paused); a
  rejected \<open>nxt.audio.play()\<close> leaves it so and rejects the call, with the writes made
  before it in place.
\<close>

definition playTrack :: "Render \<Rightarrow> Track \<Rightarrow> bool \<Rightarrow> World \<Rightarrow> Engine \<Rightarrow> settled \<times> Engine" where
  "playTrack env t crossfade w s0 =
     (let s = ensureCtx env w s0;
          xfade = (crossfade \<and> isPlaying env);
          cur = activeRef s;
          nxt = other_deck (activeRef s)
      in case inactiveDeck s of
           None \<Rightarrow> (Fulfilled, s)
         | Some _ \<Rightarrow>
             let s1 = update_deck nxt
                        (\<lambda>d. d\<lparr>track := Some t,
                               audio := (audio d)\<lparr>src := url t, currentTime := 0,
                                                  duration := NaN, paused := True\<rparr>,
                               gain := 0\<rparr>) s
             in if \<not> start_ok w then (Rejected, s1)
                else
                  let s2 = update_deck nxt
                             (\<lambda>d. d\<lparr>audio := (audio d)\<lparr>paused := False,
                                                       duration := media_duration w\<rparr>\<rparr>) s1;
                      s3 = (if xfade \<and> activeDeck s2 \<noteq> None
                            then setTimeout (max 250 (crossfadeSec env * 1000 + 100))
                                   (PauseAudio cur)
                                   (update_deck cur (rampGain 0 (crossfadeSec env))
                                      (update_deck nxt (rampGain 1 (crossfadeSec env)) s2))
                            else update_deck nxt (\<lambda>d. d\<lparr>gain := 1\<rparr>)
                                   (update_deck cur (\<lambda>d. pause_audio (d\<lparr>gain := 0\<rparr>)) s2));
                      s4 = s3\<lparr>activeRef := other_deck (activeRef s3)\<rparr>;
                      s5 = setIsPlaying True (setNowPlaying (Some t) s4);
                      s6 = update_deck (activeRef s5)
                             (\<lambda>d. d\<lparr>audio := (audio d)\<lparr>onended := Some env\<rparr>\<rparr>) s5
                  in (Fulfilled, startTick env s6))"

text \<open>
  \<open>play\<close>. A rejected \<open>cur.audio.play()\<close> is caught, and the call goes on to select a
  track.
\<close>

definition play :: "Render \<Rightarrow> World \<Rightarrow> Engine \<Rightarrow> settled \<times> Engine" where
  "play env w s0 =
     (if length (tracks env) = 0 then (Fulfilled, s0)
      else
        let s = ensureCtx env w s0;
            resumable = (case activeDeck s of
                           None \<Rightarrow> False
                         | Some cur \<Rightarrow> track cur \<noteq> None \<and> paused (audio cur))
        in if resumable \<and> resume_ok w
           then (Fulfilled,
                 startTick env
                   (setIsPlaying True
                      (update_deck (activeRef s)
                         (\<lambda>d. d\<lparr>audio := (audio d)\<lparr>paused := False\<rparr>\<rparr>) s)))
           else (case pickNextTrack exact (tracks env) (station env) (nowPlaying env) (Some (math_random w)) of
                   None \<Rightarrow> (Fulfilled, s)
                 | Some first \<Rightarrow> playTrack env first False w s))"

definition pause :: "Engine \<Rightarrow> Engine" where
  "pause s =
     (case activeDeck s of
        None \<Rightarrow> s
      | Some _ \<Rightarrow> stopTick (setIsPlaying False (update_deck (activeRef s) pause_audio s)))"

text \<open>The function \<open>next\<close> of the component.\<close>

definition next_track :: "Render \<Rightarrow> bool \<Rightarrow> World \<Rightarrow> Engine \<Rightarrow> settled \<times> Engine" where
  "next_track env useCrossfade w s =
     (if length (tracks env) = 0 then (Fulfilled, s)
      else (case pickNextTrack exact (tracks env) (station env) (nowPlaying env) (Some (math_random w)) of
              None \<Rightarrow> (Fulfilled, s)
            | Some nxt \<Rightarrow> playTrack env nxt useCrossfade w s))"

definition stop :: "Engine \<Rightarrow> Engine" where
  "stop s =
     stopTick
       (setIsPlaying False
          (update_deck DeckB (\<lambda>d. d\<lparr>gain := 0\<rparr>)
             (update_deck DeckA (\<lambda>d. d\<lparr>gain := 0\<rparr>)
                (update_deck DeckB pause_audio (update_deck DeckA pause_audio s)))))"

subsection \<open>The monitor loop\<close>

text \<open>
  The callback that \<open>startTick\<close> hands to \<open>setInterval\<close>, closed over \<open>env\<close>. The second
  component tells whether the callback called \<open>next(true)\<close>.
\<close>

definition tick_callback :: "Render \<Rightarrow> Engine \<Rightarrow> Engine \<times> bool" where
  "tick_callback env s =
     (case activeDeck s of
        None \<Rightarrow> (s, False)
      | Some deck \<Rightarrow>
          if \<not> radioMode env \<or> \<not> isPlaying env then (s, False)
          else (case duration (audio deck) of
                  Finite dur \<Rightarrow>
                    if dur \<le> 0 then (s, False)
                    else
                      let remaining = dur - currentTime (audio deck)
                      in if remaining \<le> crossfadeSec env + 0.25
                         then (if pendingFadeRef s then (s, False)
                               else (s\<lparr>pendingFadeRef := True\<rparr>, True))
                         else (s, False)
                | _ \<Rightarrow> (s, False)))"

text \<open>One firing of the interval, every 250 ms while \<open>tickRef\<close> is set.\<close>

definition interval_fire :: "Engine \<Rightarrow> Engine \<times> bool" where
  "interval_fire s = (case tickRef s of None \<Rightarrow> (s, False) | Some env \<Rightarrow> tick_callback env s)"

text \<open>
  \<open>next(true).finally(() => setTimeout(() => (pendingFadeRef.current = false), 500))\<close>, at
  the moment the promise of \<open>next(true)\<close> settles: the writes of the transition, then the
  \<open>finally\<close> callback, which runs after fulfilment and after rejection alike.
\<close>

definition auto_advance :: "Render \<Rightarrow> World \<Rightarrow> Engine \<Rightarrow> Engine" where
  "auto_advance env w s = setTimeout 500 ReleasePendingFade (snd (next_track env True w s))"

subsection \<open>Station change\<close>


text \<open>The \<open>onChange\<close> handlers of the crossfade slider and of the radio-mode checkbox.\<close>

definition setCrossfadeSec :: "real \<Rightarrow> Engine \<Rightarrow> Engine" where
  "setCrossfadeSec v s = s\<lparr>render := (render s)\<lparr>crossfadeSec := v\<rparr>\<rparr>"

definition setRadioMode :: "bool \<Rightarrow> Engine \<Rightarrow> Engine" where
  "setRadioMode b s = s\<lparr>render := (render s)\<lparr>radioMode := b\<rparr>\<rparr>"

subsection \<open>Sample states\<close>

text \<open>
  The tracks that \<open>loadFromIA\<close> builds from the files \<open>take.mp3\<close> and \<open>birds.mp3\<close> of
  the archive item: \<open>inferTagsFromPath\<close> gives the first its folder tag, and the second
  the keyword \<open>birds\<close> and its folder tag.
\<close>

definition take_track :: Track where
  "take_track = archive_track ''a7f3k9x2v5mhj3x8q15'' ''take'' ''take.mp3'' [''folder:takemp3'']"

definition birds_track :: Track where
  "birds_track =
     archive_track ''b1c8n4z6w0mhj3x8q15'' ''birds'' ''birds.mp3'' [''birds'', ''folder:birdsmp3'']"

text \<open>
  A world in which every promise fulfils, a catalog of these two tracks, the engine after
  a first \<open>play\<close> (which draws the first track), that engine after \<open>pause\<close>, and the
  started engine with the playing deck 6.2 seconds before the end of its 120 seconds.
\<close>

definition sample_world :: World where
  "sample_world =
     \<lparr>math_random = 1 / 2, ctx_initial = Running, ctx_resume_ok = True, resume_ok = True,
      start_ok = True, media_duration = Finite 120\<rparr>"

definition loaded_render :: Render where
  "loaded_render =
     initial_render\<lparr>tracks := [take_track, birds_track]\<rparr>"

definition started_engine :: Engine where
  "started_engine =
     snd (play loaded_render (sample_world\<lparr>math_random := 0\<rparr>)
            (initial_engine\<lparr>render := loaded_render\<rparr>))"

definition paused_engine :: Engine where
  "paused_engine = pause started_engine"

definition near_end_engine :: Engine where
  "near_end_engine =
     update_deck (activeRef started_engine)
       (\<lambda>d. d\<lparr>audio := (audio d)\<lparr>currentTime := 113.8\<rparr>\<rparr>) started_engine"

text \<open>
  The listener clicks Next (crossfade) while the first track plays, then Pause before
  the next track has started: \<open>pause\<close> stops the monitor while \<open>playTrack\<close> waits for
  \<open>nxt.audio.play()\<close>, and when that promise fulfils \<open>playTrack\<close> goes on, as a closure
  of the render in which Next was clicked, and starts the monitor anew. The writes of
  \<open>playTrack\<close> before its wait touch the incoming deck only, so the outcome is that of
  \<open>next\<close> taken as one step after \<open>pause\<close>.
\<close>

definition overtaken_engine :: Engine where
  "overtaken_engine =
     snd (next_track (render started_engine) True sample_world (pause started_engine))"

text \<open>
  Then the listener sets the crossfade to 0 and switches radio mode off, and the new
  track plays up to 6.2 seconds before its end.
\<close>

definition stale_monitor_engine :: Engine where
  "stale_monitor_engine =
     update_deck (activeRef overtaken_engine)
       (\<lambda>d. d\<lparr>audio := (audio d)\<lparr>currentTime := 113.8\<rparr>\<rparr>)
       (setRadioMode False (setCrossfadeSec 0 overtaken_engine))"

text \<open>
  The catalog of an archive item with the audio files \<open>a/p.mp3\<close>, \<open>q.mp3\<close>,
  \<open>2000/r.mp3\<close> and \<open>s.mp3\<close>. \<open>inferTagsFromPath\<close> finds none of its keywords in these
  paths; it gives the year for the path that has one, and a folder tag for each of the
  first two segments of the path, the file name being the last segment.
\<close>

definition year_track :: Track where
  "year_track =
     archive_track ''r4t7w1c9k2mhj3x8q15'' ''r'' ''2000/r.mp3''
       [''year:2000'', ''folder:2000'', ''folder:rmp3'']"

definition folder_catalog :: "Track list" where
  "folder_catalog =
     [archive_track ''p8k2j5h1d9mhj3x8q15'' ''p'' ''a/p.mp3'' [''folder:a'', ''folder:pmp3''],
      archive_track ''q0z6b3n7v4mhj3x8q15'' ''q'' ''q.mp3'' [''folder:qmp3''],
      year_track,
      archive_track ''s5y1g8e2u6mhj3x8q15'' ''s'' ''s.mp3'' [''folder:smp3'']]"

text \<open>
  Campfire Drift with a weight for a year tag, as the comment in \<open>scoreTrack\<close> foresees
  (\<^emph>\<open>allow weights on year/folder tags too if you ever add them later\<close>).
\<close>

definition year_station :: Station where
  "year_station =
     CampfireDrift\<lparr>tagWeights := tagWeights CampfireDrift @ [(''year:2000'', 3)]\<rparr>"

section \<open>Properties of the selection\<close>

subsection \<open>Auxiliary facts\<close>

lemma exact_simps:
  "js_num exact x = Some x"
  "js_nan exact = None"
  "js_add exact (Some x) (Some y) = Some (x + y)"
  "js_sub exact (Some x) (Some y) = Some (x - y)"
  "js_mul exact (Some x) (Some y) = Some (x * y)"
  "js_max exact (Some x) (Some y) = Some (max x y)"
  "js_min exact (Some x) (Some y) = Some (min x y)"
  "js_le exact (Some x) (Some y) = (x \<le> y)"
  "js_floor exact (Some x) = Some \<lfloor>x\<rfloor>"
  "js_add exact None b = None" "js_add exact a None = None"
  "js_sub exact None b = None" "js_sub exact a None = None"
  "js_mul exact None b = None" "js_mul exact a None = None"
  "js_max exact None b = None" "js_max exact a None = None"
  "js_min exact None b = None" "js_min exact a None = None"
  "js_le exact None b = False" "js_le exact a None = False"
  "js_floor exact None = None"
  by (simp_all add: exact_def lift2_def split: option.splits)

lemma sample_track_sel:
  "id_track (sample_track i tgs w) = i"
  "tags (sample_track i tgs w) = tgs"
  "weight (sample_track i tgs w) = Some w"
  by (simp_all add: sample_track_def)

lemma archive_track_sel:
  "id_track (archive_track i leaf full tgs) = i"
  "tags (archive_track i leaf full tgs) = tgs"
  "weight (archive_track i leaf full tgs) = Some 1"
  by (simp_all add: archive_track_def)

lemma normalizeTag_year: "normalizeTag ''year:2000'' = ''year2000''"
  by code_simp

lemma normalizeTag_folder:
  "normalizeTag ''folder:a'' = ''foldera''"
  "normalizeTag ''folder:pmp3'' = ''folderpmp3''"
  "normalizeTag ''folder:qmp3'' = ''folderqmp3''"
  "normalizeTag ''folder:2000'' = ''folder2000''"
  "normalizeTag ''folder:rmp3'' = ''folderrmp3''"
  "normalizeTag ''folder:smp3'' = ''foldersmp3''"
  by code_simp+

lemma no_folder_keys:
  "get_prop (tagWeights CampfireDrift) ''foldera'' = Undefined"
  "get_prop (tagWeights CampfireDrift) ''folderpmp3'' = Undefined"
  "get_prop (tagWeights CampfireDrift) ''folderqmp3'' = Undefined"
  "get_prop (tagWeights CampfireDrift) ''year2000'' = Undefined"
  "get_prop (tagWeights CampfireDrift) ''folder2000'' = Undefined"
  "get_prop (tagWeights CampfireDrift) ''folderrmp3'' = Undefined"
  "get_prop (tagWeights CampfireDrift) ''foldersmp3'' = Undefined"
  "tagWeights CampfireDrift \<noteq> []"
  "get_prop (tagWeights year_station) ''year2000'' = Undefined"
  "get_prop (tagWeights year_station) ''folder2000'' = Undefined"
  "get_prop (tagWeights year_station) ''folderrmp3'' = Undefined"
  "tagWeights year_station \<noteq> []"
  by (simp_all add: get_prop_def year_station_def CampfireDrift_def Object_prototype_keys_def)

lemma weightedPick_loop_mem:
  "weightedPick_loop ar xs ws r = Some x \<Longrightarrow> x \<in> set xs"
  by (induction xs arbitrary: ws r) (auto simp: Let_def split: if_splits)

lemma item_at_mem: "item_at xs i = Some x \<Longrightarrow> x \<in> set xs"
  by (auto simp: item_at_def split: if_splits)

lemma item_at_last: "xs \<noteq> [] \<Longrightarrow> item_at xs (int (length xs) - 1) = Some (last xs)"
  by (cases xs rule: rev_cases) (auto simp: item_at_def nth_append)

lemma floor_index:
  assumes "0 \<le> u" "u < 1" "0 < n"
  shows "0 \<le> \<lfloor>u * real n\<rfloor> \<and> \<lfloor>u * real n\<rfloor> < int n"
proof -
  have "0 \<le> u * real n" using assms by simp
  moreover have "u * real n < real n" using assms by simp
  ultimately show ?thesis by (simp add: floor_less_iff)
qed

text \<open>With an index in range for the fall-back, a non-empty list yields one of its items.\<close>

lemma weightedPick_mem:
  assumes "items \<noteq> []"
    and "js_floor ar (js_mul ar rnd (js_num ar (real (length items)))) = Some i"
    and "0 \<le> i" and "i < int (length items)"
  shows "\<exists>x. weightedPick ar items ws rnd = Some x \<and> x \<in> set items"
proof (cases "js_le ar (total_weight ar ws) (js_num ar 0)")
  case True
  with assms(2-4) show ?thesis
    by (simp add: weightedPick_def item_at_def)
next
  case False
  show ?thesis
  proof (cases "weightedPick_loop ar items ws (js_mul ar rnd (total_weight ar ws))")
    case None
    with False assms(1) show ?thesis
      by (simp add: weightedPick_def item_at_last)
  next
    case (Some x)
    with False weightedPick_loop_mem[OF Some] show ?thesis
      by (simp add: weightedPick_def)
  qed
qed

lemma exact_index:
  assumes "0 \<le> u" "u < 1" "items \<noteq> []"
  shows "js_floor exact (js_mul exact (Some u) (js_num exact (real (length items))))
           = Some \<lfloor>u * real (length items)\<rfloor>"
    and "0 \<le> \<lfloor>u * real (length items)\<rfloor>"
    and "\<lfloor>u * real (length items)\<rfloor> < int (length items)"
  using floor_index[OF assms(1,2), of "length items"] assms(3)
  by (simp_all add: exact_simps)

lemma remainder_Cons:
  "remainder ar (w # ws) r (Suc k) = remainder ar ws (js_sub ar r (js_max ar (js_num ar 0) w)) k"
  by (simp add: remainder_def)

lemma remainder_0: "remainder ar ws r 0 = r"
  by (simp add: remainder_def)

text \<open>
  With as many weights as items, the loop returns the first item at which the remainder
  is at most 0.
\<close>

lemma weightedPick_loop_first:
  "length ws = length xs \<Longrightarrow> i < length xs \<Longrightarrow>
   js_le ar (remainder ar ws r (Suc i)) (js_num ar 0) \<Longrightarrow>
   (\<forall>j<i. \<not> js_le ar (remainder ar ws r (Suc j)) (js_num ar 0)) \<Longrightarrow>
   weightedPick_loop ar xs ws r = Some (xs ! i)"
proof (induction xs arbitrary: ws r i)
  case Nil
  then show ?case by simp
next
  case (Cons x xs)
  from Cons.prems(1) obtain w ws' where ws: "ws = w # ws'" "length ws' = length xs"
    by (cases ws) auto
  let ?r' = "js_sub ar r (js_max ar (js_num ar 0) w)"
  show ?case
  proof (cases i)
    case 0
    with Cons.prems(3) ws show ?thesis
      by (simp add: remainder_Cons remainder_0)
  next
    case (Suc k)
    from Cons.prems(4) Suc have "\<not> js_le ar (remainder ar ws r (Suc 0)) (js_num ar 0)"
      by blast
    then have n0: "\<not> js_le ar ?r' (js_num ar 0)"
      by (simp add: ws remainder_Cons remainder_0)
    have k: "k < length xs" using Cons.prems(2) Suc by simp
    have hit: "js_le ar (remainder ar ws' ?r' (Suc k)) (js_num ar 0)"
      using Cons.prems(3) by (simp add: ws Suc remainder_Cons)
    have before: "\<forall>j<k. \<not> js_le ar (remainder ar ws' ?r' (Suc j)) (js_num ar 0)"
    proof (intro allI impI)
      fix j assume "j < k"
      then have "Suc j < i" using Suc by simp
      with Cons.prems(4) have "\<not> js_le ar (remainder ar ws r (Suc (Suc j))) (js_num ar 0)"
        by blast
      then show "\<not> js_le ar (remainder ar ws' ?r' (Suc j)) (js_num ar 0)"
        by (simp add: ws remainder_Cons)
    qed
    from Cons.IH[OF ws(2) k hit before] n0 show ?thesis
      by (simp add: ws Suc)
  qed
qed

text \<open>
  With as many weights as items, the loop runs to its end when no remainder is at most 0.
\<close>

lemma weightedPick_loop_none:
  "length ws = length xs \<Longrightarrow>
   (\<forall>i<length xs. \<not> js_le ar (remainder ar ws r (Suc i)) (js_num ar 0)) \<Longrightarrow>
   weightedPick_loop ar xs ws r = None"
proof (induction xs arbitrary: ws r)
  case Nil
  then show ?case by simp
next
  case (Cons x xs)
  from Cons.prems(1) obtain w ws' where ws: "ws = w # ws'" "length ws' = length xs"
    by (cases ws) auto
  let ?r' = "js_sub ar r (js_max ar (js_num ar 0) w)"
  from Cons.prems(2) have "\<not> js_le ar (remainder ar ws r (Suc 0)) (js_num ar 0)"
    by auto
  then have n0: "\<not> js_le ar ?r' (js_num ar 0)"
    by (simp add: ws remainder_Cons remainder_0)
  have rest: "\<forall>i<length xs. \<not> js_le ar (remainder ar ws' ?r' (Suc i)) (js_num ar 0)"
  proof (intro allI impI)
    fix i assume "i < length xs"
    then have "Suc i < length (x # xs)" by simp
    with Cons.prems(2) have "\<not> js_le ar (remainder ar ws r (Suc (Suc i))) (js_num ar 0)"
      by blast
    then show "\<not> js_le ar (remainder ar ws' ?r' (Suc i)) (js_num ar 0)"
      by (simp add: ws remainder_Cons)
  qed
  from Cons.IH[OF ws(2) rest] n0 show ?case
    by (simp add: ws)
qed

lemma is_repeat_current: "is_repeat np t \<Longrightarrow> is_current np t"
  by (auto simp: is_repeat_def is_current_def split: option.splits)

lemmas score_defs = scoreTrack_def AllField_def sample_track_sel is_repeat_def plus_def
  to_number_def exact_simps total_weight_def remainder_def

lemma exact_max_idem: "js_max exact (Some 0) (js_max exact (Some 0) w) = js_max exact (Some 0) w"
  by (cases w) (simp_all add: exact_simps)

lemma total_weight_clamped:
  "total_weight exact (map (js_max exact (Some 0)) ws) = total_weight exact ws"
proof -
  have "foldl (\<lambda>a w. js_add exact a (js_max exact (Some 0) w)) a (map (js_max exact (Some 0)) ws)
      = foldl (\<lambda>a w. js_add exact a (js_max exact (Some 0) w)) a ws" for a
    by (induction ws arbitrary: a) (simp_all add: exact_max_idem)
  then show ?thesis
    by (simp add: total_weight_def exact_simps)
qed

lemma weightedPick_loop_clamped:
  "weightedPick_loop exact items (map (js_max exact (Some 0)) ws) r
     = weightedPick_loop exact items ws r"
proof (induction items arbitrary: ws r)
  case Nil
  show ?case by simp
next
  case (Cons x xs)
  show ?case
  proof (cases ws)
    case Nil
    with Cons.IH[of "[]"] show ?thesis by simp
  next
    case (Cons w ws')
    with Cons.IH[of ws'] show ?thesis
      by (simp add: exact_simps exact_max_idem Let_def)
  qed
qed

subsection \<open>Double precision\<close>

lemma binary64_simps:
  "js_num binary64 x = Some (round53 x)"
  "js_nan binary64 = None"
  "js_add binary64 (Some x) (Some y) = Some (round53 (x + y))"
  "js_sub binary64 (Some x) (Some y) = Some (round53 (x - y))"
  "js_mul binary64 (Some x) (Some y) = Some (round53 (x * y))"
  "js_max binary64 (Some x) (Some y) = Some (max x y)"
  "js_min binary64 (Some x) (Some y) = Some (min x y)"
  "js_le binary64 (Some x) (Some y) = (x \<le> y)"
  "js_floor binary64 (Some x) = Some \<lfloor>x\<rfloor>"
  by (simp_all add: binary64_def lift2_def)

lemma round53_0: "round53 0 = 0"
  by (simp add: round53_def)

text \<open>
  Rounding where the scaled magnitude lies between \<open>2^52\<close> and \<open>2^53\<close>.
\<close>

lemma round53_scaled:
  fixes s :: nat
  assumes "2 ^ 52 \<le> \<bar>x\<bar> * 2 ^ s" and "\<bar>x\<bar> * 2 ^ s < 2 ^ 53"
  shows "round53 x = of_int (rne (x * 2 ^ s)) / 2 ^ s"
proof -
  have pos: "0 < \<bar>x\<bar>"
  proof (rule ccontr)
    assume "\<not> 0 < \<bar>x\<bar>"
    then have "x = 0" by simp
    with assms(1) show False by simp
  qed
  have two: "(2::real) powr (real_of_int (52 - int s)) = 2 ^ 52 / 2 ^ s"
    by (simp add: powr_diff powr_realpow)
  have two': "(2::real) powr (real_of_int (52 - int s) + 1) = 2 ^ 53 / 2 ^ s"
    by (simp add: powr_add powr_diff powr_realpow)
  have lo: "2 powr (real_of_int (52 - int s)) \<le> \<bar>x\<bar>"
    unfolding two using assms(1) by (simp add: field_simps)
  have hi: "\<bar>x\<bar> < 2 powr (real_of_int (52 - int s) + 1)"
    unfolding two' using assms(2) by (simp add: field_simps)
  have fl: "\<lfloor>log 2 \<bar>x\<bar>\<rfloor> = 52 - int s"
    using pos lo hi by (simp add: floor_log_eq_powr_iff)
  have q: "(2::real) powr (of_int \<lfloor>log 2 \<bar>x\<bar>\<rfloor> - 52) = 1 / 2 ^ s"
    unfolding fl by (simp add: powr_minus powr_realpow field_simps)
  from pos have "x \<noteq> 0" by auto
  then show ?thesis
    by (simp add: round53_def Let_def q)
qed

text \<open>The roundings that the draw on the folder catalog meets.\<close>

lemma round53_value_1: "round53 (3 / 20) = 5404319552844595 / 36028797018963968"
  by (subst round53_scaled[where s = 55]) (simp_all add: rne_def Let_def)

lemma round53_value_2: "round53 (2) = 2"
  by (subst round53_scaled[where s = 51]) (simp_all add: rne_def Let_def)

lemma round53_value_3: "round53 (5404319552844595 / 18014398509481984) = 5404319552844595 / 18014398509481984"
  by (subst round53_scaled[where s = 54]) (simp_all add: rne_def Let_def)

lemma round53_value_4: "round53 (1) = 1"
  by (subst round53_scaled[where s = 52]) (simp_all add: rne_def Let_def)

lemma round53_value_5: "round53 (23418718062326579 / 18014398509481984) = 5854679515581645 / 4503599627370496"
  by (subst round53_scaled[where s = 52]) (simp_all add: rne_def Let_def)

lemma round53_value_6: "round53 (5404319552844595 / 36028797018963968) = 5404319552844595 / 36028797018963968"
  by (subst round53_scaled[where s = 55]) (simp_all add: rne_def Let_def)

lemma round53_value_7: "round53 (41433116571808563 / 36028797018963968) = 2589569785738035 / 2251799813685248"
  by (subst round53_scaled[where s = 52]) (simp_all add: rne_def Let_def)

lemma round53_value_8: "round53 (3) = 3"
  by (subst round53_scaled[where s = 51]) (simp_all add: rne_def Let_def)

lemma round53_value_9: "round53 (16212958658533785 / 36028797018963968) = 2026619832316723 / 4503599627370496"
  by (subst round53_scaled[where s = 54]) (simp_all add: rne_def Let_def)

lemma round53_value_10: "round53 (6530219459687219 / 4503599627370496) = 6530219459687219 / 4503599627370496"
  by (subst round53_scaled[where s = 52]) (simp_all add: rne_def Let_def)

lemma round53_value_11: "round53 (5854679515581645 / 4503599627370496) = 5854679515581645 / 4503599627370496"
  by (subst round53_scaled[where s = 52]) (simp_all add: rne_def Let_def)

lemma round53_value_12: "round53 (11033819087057715 / 4503599627370496) = 2758454771764429 / 1125899906842624"
  by (subst round53_scaled[where s = 51]) (simp_all add: rne_def Let_def)

lemma round53_value_13: "round53 (17564038546744935 / 4503599627370496) = 2195504818343117 / 562949953421312"
  by (subst round53_scaled[where s = 51]) (simp_all add: rne_def Let_def)

lemma round53_value_14: "round53 (11371589059110503 / 2251799813685248) = 1421448632388813 / 281474976710656"
  by (subst round53_scaled[where s = 50]) (simp_all add: rne_def Let_def)

lemma round53_value_15: "round53 (6401635531152557956829644272435 / 1267650600228229401496703205376) = 5685794529555251 / 1125899906842624"
  by (subst round53_scaled[where s = 50]) (simp_all add: rne_def Let_def)

lemma round53_value_16: "round53 (16888498602639359 / 4503599627370496) = 15 / 4"
  by (subst round53_scaled[where s = 51]) (simp_all add: rne_def Let_def)

lemma round53_value_17: "round53 (5854679515581645 / 2251799813685248) = 5854679515581645 / 2251799813685248"
  by (subst round53_scaled[where s = 51]) (simp_all add: rne_def Let_def)

lemma round53_value_18: "round53 (5179139571476071 / 4503599627370496) = 5179139571476071 / 4503599627370496"
  by (subst round53_scaled[where s = 52]) (simp_all add: rne_def Let_def)

lemma round53_value_19: "round53 (1 / 4503599627370496) = 1 / 4503599627370496"
  by (subst round53_scaled[where s = 104]) (simp_all add: rne_def Let_def)

lemmas round53_values = round53_value_1 round53_value_2 round53_value_3 round53_value_4 round53_value_5 round53_value_6 round53_value_7 round53_value_8 round53_value_9 round53_value_10 round53_value_11 round53_value_12 round53_value_13 round53_value_14 round53_value_15 round53_value_16 round53_value_17 round53_value_18 round53_value_19


lemma folder_scores:
  "map (scoreTrack binary64 CampfireDrift None) folder_catalog
     = [Some (5854679515581645 / 4503599627370496), Some (2589569785738035 / 2251799813685248),
        Some (6530219459687219 / 4503599627370496), Some (2589569785738035 / 2251799813685248)]"
  by (simp add: folder_catalog_def year_track_def scoreTrack_def Let_def archive_track_sel
      is_repeat_def normalizeTag_folder normalizeTag_year no_folder_keys plus_def
      to_number_def binary64_simps round53_values round53_0)

lemma folder_total:
  "total_weight binary64 (map (scoreTrack binary64 CampfireDrift None) folder_catalog)
     = Some (1421448632388813 / 281474976710656)"
  by (simp add: folder_scores total_weight_def binary64_simps round53_values round53_0)

lemma folder_remainders:
  "remainder binary64 (map (scoreTrack binary64 CampfireDrift None) folder_catalog)
     (Some (5685794529555251 / 1125899906842624)) (Suc 0) = Some (15 / 4)"
  "remainder binary64 (map (scoreTrack binary64 CampfireDrift None) folder_catalog)
     (Some (5685794529555251 / 1125899906842624)) (Suc (Suc 0))
     = Some (5854679515581645 / 2251799813685248)"
  "remainder binary64 (map (scoreTrack binary64 CampfireDrift None) folder_catalog)
     (Some (5685794529555251 / 1125899906842624)) (Suc (Suc (Suc 0)))
     = Some (5179139571476071 / 4503599627370496)"
  "remainder binary64 (map (scoreTrack binary64 CampfireDrift None) folder_catalog)
     (Some (5685794529555251 / 1125899906842624)) (Suc (Suc (Suc (Suc 0))))
     = Some (1 / 4503599627370496)"
  by (simp_all add: folder_scores remainder_def binary64_simps round53_values round53_0)

lemma folder_draw:
  "js_mul binary64 (Some (4503599627370495 / 4503599627370496))
     (Some (1421448632388813 / 281474976710656))
     = Some (5685794529555251 / 1125899906842624)"
  by (simp add: binary64_simps round53_values)

subsection \<open>The score of a track\<close>


text \<open>
  Claim C2, as the code has it. For a station with an empty tag-weight mapping and three
  tracks of weight 1 with the tags \<open>[]\<close>, \<open>["birds"]\<close> and \<open>["birds", "dawn"]\<close>, none of
  them the track now playing, the scores are exactly 1, 1.25 and 1.5.
\<close>

theorem broad_shuffle_scores:
  assumes "tagWeights st = []"
    and "weight t1 = Some 1" and "weight t2 = Some 1" and "weight t3 = Some 1"
    and "tags t1 = []" and "tags t2 = [''birds'']" and "tags t3 = [''birds'', ''dawn'']"
    and "\<not> is_current np t1" and "\<not> is_current np t2" and "\<not> is_current np t3"
  shows "map (scoreTrack exact st np) [t1, t2, t3] = [Some 1, Some 1.25, Some 1.5]"
proof -
  have "\<not> is_repeat np t1" "\<not> is_repeat np t2" "\<not> is_repeat np t3"
    using assms(8-10) is_repeat_current by blast+
  with assms(1-7) show ?thesis
    by (simp add: scoreTrack_def Let_def plus_def to_number_def exact_simps)
qed

theorem broad_shuffle_scores_witness:
  "tagWeights AllField = []
   \<and> weight (sample_track ''a'' [] 1) = Some 1
   \<and> weight (sample_track ''b'' [''birds''] 1) = Some 1
   \<and> weight (sample_track ''c'' [''birds'', ''dawn''] 1) = Some 1
   \<and> tags (sample_track ''a'' [] 1) = []
   \<and> tags (sample_track ''b'' [''birds''] 1) = [''birds'']
   \<and> tags (sample_track ''c'' [''birds'', ''dawn''] 1) = [''birds'', ''dawn'']
   \<and> \<not> is_current None (sample_track ''a'' [] 1)
   \<and> \<not> is_current None (sample_track ''b'' [''birds''] 1)
   \<and> \<not> is_current None (sample_track ''c'' [''birds'', ''dawn''] 1)
   \<and> map (scoreTrack exact AllField None)
        [sample_track ''a'' [] 1, sample_track ''b'' [''birds''] 1,
         sample_track ''c'' [''birds'', ''dawn''] 1] = [Some 1, Some 1.25, Some 1.5]"
  using broad_shuffle_scores[of AllField "sample_track ''a'' [] 1"
      "sample_track ''b'' [''birds''] 1" "sample_track ''c'' [''birds'', ''dawn''] 1" None]
  by (simp add: AllField_def sample_track_sel is_current_def)

text \<open>
  The second and third score are 1.25 and 1.5: they lie more than 0.2 and more than 0.4
  away from the values 1.0375 and 1.075.
\<close>

theorem broad_shuffle_scores_counterexample:
  "scoreTrack exact AllField None (sample_track ''b'' [''birds''] 1) = Some 1.25
   \<and> \<bar>1.25 - 1.0375\<bar> > (0.2 :: real)
   \<and> scoreTrack exact AllField None (sample_track ''c'' [''birds'', ''dawn''] 1) = Some 1.5
   \<and> \<bar>1.5 - 1.075\<bar> > (0.4 :: real)"
  by (simp add: scoreTrack_def AllField_def sample_track_sel is_repeat_def plus_def
      to_number_def exact_simps)

subsection \<open>The choice of the next track\<close>

text \<open>
  Claim C3, as the code has it. For a non-empty catalog \<open>pickNextTrack\<close> returns a track
  of the catalog: in exact arithmetic for every value of \<open>Math.random()\<close> in \<open>[0, 1)\<close>,
  and in every arithmetic whenever \<open>Math.floor(Math.random() * length)\<close> is an index of
  the catalog. With two or more tracks and a total score that is not \<open><= 0\<close>, the draw is
  \<open>rnd * total\<close>, each track's score is subtracted from it in catalog order, and the
  track returned is the first at which the remainder is \<open><= 0\<close>, or the last track of the
  catalog when no remainder is. With a total score \<open><= 0\<close>, the track returned is the
  one at index \<open>Math.floor(rnd * length)\<close>. The draw and the fall-back hold in every
  arithmetic.
\<close>

theorem pickNextTrack_draw:
  fixes ar :: "'n arith"
  assumes "ts \<noteq> []"
  shows "(0 \<le> u \<longrightarrow> u < 1 \<longrightarrow>
            (\<exists>t. pickNextTrack exact ts st np (Some u) = Some t \<and> t \<in> set ts))
    \<and> ((\<exists>i. js_floor ar (js_mul ar rnd (js_num ar (real (length ts)))) = Some i
              \<and> 0 \<le> i \<and> i < int (length ts)) \<longrightarrow>
            (\<exists>t. pickNextTrack ar ts st np rnd = Some t \<and> t \<in> set ts))
    \<and> (length ts \<noteq> 1 \<longrightarrow>
         \<not> js_le ar (total_weight ar (map (scoreTrack ar st np) ts)) (js_num ar 0) \<longrightarrow>
         (\<forall>i<length ts.
            js_le ar (remainder ar (map (scoreTrack ar st np) ts)
                        (js_mul ar rnd (total_weight ar (map (scoreTrack ar st np) ts)))
                        (Suc i)) (js_num ar 0) \<longrightarrow>
            (\<forall>j<i. \<not> js_le ar (remainder ar (map (scoreTrack ar st np) ts)
                        (js_mul ar rnd (total_weight ar (map (scoreTrack ar st np) ts)))
                        (Suc j)) (js_num ar 0)) \<longrightarrow>
            pickNextTrack ar ts st np rnd = Some (ts ! i)))
    \<and> (length ts \<noteq> 1 \<longrightarrow>
         \<not> js_le ar (total_weight ar (map (scoreTrack ar st np) ts)) (js_num ar 0) \<longrightarrow>
         (\<forall>i<length ts.
            \<not> js_le ar (remainder ar (map (scoreTrack ar st np) ts)
                        (js_mul ar rnd (total_weight ar (map (scoreTrack ar st np) ts)))
                        (Suc i)) (js_num ar 0)) \<longrightarrow>
         pickNextTrack ar ts st np rnd = Some (last ts))
    \<and> (length ts \<noteq> 1 \<longrightarrow>
         js_le ar (total_weight ar (map (scoreTrack ar st np) ts)) (js_num ar 0) \<longrightarrow>
         pickNextTrack ar ts st np rnd
           = (case js_floor ar (js_mul ar rnd (js_num ar (real (length ts)))) of
                None \<Rightarrow> None
              | Some i \<Rightarrow> item_at ts i))"
proof -
  have mem: "\<exists>t. pickNextTrack ar' ts st np r' = Some t \<and> t \<in> set ts"
    if "js_floor ar' (js_mul ar' r' (js_num ar' (real (length ts)))) = Some i"
      "0 \<le> i" "i < int (length ts)" for ar' :: "'m arith" and r' i
  proof (cases "length ts = 1")
    case True
    then obtain t where "ts = [t]" by (cases ts) auto
    then show ?thesis by (simp add: pickNextTrack_def item_at_def)
  next
    case False
    with assms weightedPick_mem[OF assms that] show ?thesis
      by (simp add: pickNextTrack_def)
  qed
  have a: "0 \<le> u \<longrightarrow> u < 1 \<longrightarrow>
            (\<exists>t. pickNextTrack exact ts st np (Some u) = Some t \<and> t \<in> set ts)"
    using mem[of exact "Some u"] exact_index[OF _ _ assms, of u] by blast
  have b: "(\<exists>i. js_floor ar (js_mul ar rnd (js_num ar (real (length ts)))) = Some i
              \<and> 0 \<le> i \<and> i < int (length ts)) \<longrightarrow>
            (\<exists>t. pickNextTrack ar ts st np rnd = Some t \<and> t \<in> set ts)"
    using mem[of ar rnd] by blast
  let ?ws = "map (scoreTrack ar st np) ts"
  have len: "length ?ws = length ts" by simp
  have c: "length ts \<noteq> 1 \<longrightarrow>
         \<not> js_le ar (total_weight ar ?ws) (js_num ar 0) \<longrightarrow>
         (\<forall>i<length ts.
            js_le ar (remainder ar ?ws (js_mul ar rnd (total_weight ar ?ws)) (Suc i))
              (js_num ar 0) \<longrightarrow>
            (\<forall>j<i. \<not> js_le ar (remainder ar ?ws (js_mul ar rnd (total_weight ar ?ws)) (Suc j))
              (js_num ar 0)) \<longrightarrow>
            pickNextTrack ar ts st np rnd = Some (ts ! i))"
  proof (intro impI allI)
    fix i
    assume n1: "length ts \<noteq> 1"
      and pos: "\<not> js_le ar (total_weight ar ?ws) (js_num ar 0)"
      and i: "i < length ts"
      and hit: "js_le ar (remainder ar ?ws (js_mul ar rnd (total_weight ar ?ws)) (Suc i))
              (js_num ar 0)"
      and first: "\<forall>j<i. \<not> js_le ar
              (remainder ar ?ws (js_mul ar rnd (total_weight ar ?ws)) (Suc j)) (js_num ar 0)"
    from weightedPick_loop_first[OF len i hit first] assms n1 pos
    show "pickNextTrack ar ts st np rnd = Some (ts ! i)"
      by (simp add: pickNextTrack_def weightedPick_def)
  qed
  have c': "length ts \<noteq> 1 \<longrightarrow>
         \<not> js_le ar (total_weight ar ?ws) (js_num ar 0) \<longrightarrow>
         (\<forall>i<length ts.
            \<not> js_le ar (remainder ar ?ws (js_mul ar rnd (total_weight ar ?ws)) (Suc i))
              (js_num ar 0)) \<longrightarrow>
         pickNextTrack ar ts st np rnd = Some (last ts)"
  proof (intro impI)
    assume n1: "length ts \<noteq> 1"
      and pos: "\<not> js_le ar (total_weight ar ?ws) (js_num ar 0)"
      and none: "\<forall>i<length ts. \<not> js_le ar
              (remainder ar ?ws (js_mul ar rnd (total_weight ar ?ws)) (Suc i)) (js_num ar 0)"
    from weightedPick_loop_none[OF len none] assms n1 pos
    show "pickNextTrack ar ts st np rnd = Some (last ts)"
      by (simp add: pickNextTrack_def weightedPick_def item_at_last)
  qed
  have d: "length ts \<noteq> 1 \<longrightarrow>
         js_le ar (total_weight ar ?ws) (js_num ar 0) \<longrightarrow>
         pickNextTrack ar ts st np rnd
           = (case js_floor ar (js_mul ar rnd (js_num ar (real (length ts)))) of
                None \<Rightarrow> None
              | Some i \<Rightarrow> item_at ts i)"
    using assms by (simp add: pickNextTrack_def weightedPick_def)
  show ?thesis
    by (intro conjI a b c c' d)
qed

theorem pickNextTrack_draw_witness:
  "[sample_track ''a'' [] 1, sample_track ''b'' [''birds''] 1] \<noteq> []
   \<and> (0::real) \<le> 1 / 2 \<and> (1 / 2 :: real) < 1
   \<and> js_floor exact (js_mul exact (Some (1 / 2)) (js_num exact
         (real (length [sample_track ''a'' [] 1, sample_track ''b'' [''birds''] 1])))) = Some 1
   \<and> length [sample_track ''a'' [] 1, sample_track ''b'' [''birds''] 1] \<noteq> 1
   \<and> total_weight exact (map (scoreTrack exact AllField None)
         [sample_track ''a'' [] 1, sample_track ''b'' [''birds''] 1]) = Some 2.25
   \<and> remainder exact (map (scoreTrack exact AllField None)
         [sample_track ''a'' [] 1, sample_track ''b'' [''birds''] 1]) (Some 1.125) 1
       = Some 0.125
   \<and> remainder exact (map (scoreTrack exact AllField None)
         [sample_track ''a'' [] 1, sample_track ''b'' [''birds''] 1]) (Some 1.125) 2
       = Some (- 1.125)
   \<and> pickNextTrack exact [sample_track ''a'' [] 1, sample_track ''b'' [''birds''] 1]
         AllField None (Some (1 / 2)) = Some (sample_track ''b'' [''birds''] 1)
   \<and> total_weight exact (map (scoreTrack exact AllField None)
         [sample_track ''y'' [] 0, sample_track ''z'' [] 0]) = Some 0
   \<and> pickNextTrack exact [sample_track ''y'' [] 0, sample_track ''z'' [] 0]
         AllField None (Some (1 / 2)) = Some (sample_track ''z'' [] 0)
   \<and> folder_catalog \<noteq> [] \<and> length folder_catalog \<noteq> 1
   \<and> total_weight binary64 (map (scoreTrack binary64 CampfireDrift None) folder_catalog)
       = Some (1421448632388813 / 281474976710656)
   \<and> remainder binary64 (map (scoreTrack binary64 CampfireDrift None) folder_catalog)
        (Some (5685794529555251 / 1125899906842624)) 1 = Some (15 / 4)
   \<and> remainder binary64 (map (scoreTrack binary64 CampfireDrift None) folder_catalog)
        (Some (5685794529555251 / 1125899906842624)) 2
       = Some (5854679515581645 / 2251799813685248)
   \<and> remainder binary64 (map (scoreTrack binary64 CampfireDrift None) folder_catalog)
        (Some (5685794529555251 / 1125899906842624)) 3
       = Some (5179139571476071 / 4503599627370496)
   \<and> remainder binary64 (map (scoreTrack binary64 CampfireDrift None) folder_catalog)
        (Some (5685794529555251 / 1125899906842624)) 4 = Some (1 / 4503599627370496)
   \<and> pickNextTrack binary64 folder_catalog CampfireDrift None
        (Some (4503599627370495 / 4503599627370496)) = Some (last folder_catalog)"
proof -
  let ?ab = "[sample_track ''a'' [] 1, sample_track ''b'' [''birds''] 1]"
  let ?yz = "[sample_track ''y'' [] 0, sample_track ''z'' [] 0]"
  let ?fs = "map (scoreTrack binary64 CampfireDrift None) folder_catalog"
  let ?r0 = "Some (5685794529555251 / 1125899906842624 :: real)"
  have t: "total_weight exact (map (scoreTrack exact AllField None) ?ab) = Some 2.25"
    "total_weight exact (map (scoreTrack exact AllField None) ?yz) = Some 0"
    by (simp_all add: score_defs)
  have r: "remainder exact (map (scoreTrack exact AllField None) ?ab) (Some 1.125) 1 = Some 0.125"
    "remainder exact (map (scoreTrack exact AllField None) ?ab) (Some 1.125) 2 = Some (- 1.125)"
    by (simp_all add: score_defs numeral_2_eq_2)
  have f: "js_floor exact (js_mul exact (Some (1 / 2)) (js_num exact (real (length ?ab)))) = Some 1"
    "js_floor exact (js_mul exact (Some (1 / 2)) (js_num exact (real (length ?yz)))) = Some 1"
    by (simp_all add: exact_simps)
  have p1: "pickNextTrack exact ?ab AllField None (Some (1 / 2)) = Some (?ab ! 1)"
    using pickNextTrack_draw[of ?ab "1 / 2" AllField None exact "Some (1 / 2)"] t r
    by (simp add: exact_simps numeral_2_eq_2 less_Suc_eq)
  have p2: "pickNextTrack exact ?yz AllField None (Some (1 / 2)) = Some (?yz ! 1)"
    using pickNextTrack_draw[of ?yz "1 / 2" AllField None exact "Some (1 / 2)"] t f
    by (simp add: exact_simps item_at_def)
  have l: "folder_catalog \<noteq> []" "length folder_catalog \<noteq> 1" "length folder_catalog = 4"
    by (simp_all add: folder_catalog_def)
  have fr: "remainder binary64 ?fs ?r0 1 = Some (15 / 4)"
    "remainder binary64 ?fs ?r0 2 = Some (5854679515581645 / 2251799813685248)"
    "remainder binary64 ?fs ?r0 3 = Some (5179139571476071 / 4503599627370496)"
    "remainder binary64 ?fs ?r0 4 = Some (1 / 4503599627370496)"
    using folder_remainders by (simp_all add: eval_nat_numeral)
  have none: "\<forall>i<length folder_catalog.
      \<not> js_le binary64 (remainder binary64 ?fs
            (js_mul binary64 (Some (4503599627370495 / 4503599627370496))
               (total_weight binary64 ?fs)) (Suc i)) (js_num binary64 0)"
    unfolding folder_total folder_draw l(3)
    using folder_remainders
    by (simp add: less_Suc_eq eval_nat_numeral binary64_simps round53_0)
  have pos: "\<not> js_le binary64 (total_weight binary64 ?fs) (js_num binary64 0)"
    by (simp add: folder_total binary64_simps round53_0)
  have p3: "pickNextTrack binary64 folder_catalog CampfireDrift None
        (Some (4503599627370495 / 4503599627370496)) = Some (last folder_catalog)"
    using pickNextTrack_draw[OF l(1), of _ CampfireDrift None binary64
        "Some (4503599627370495 / 4503599627370496)"] l(2) pos none
    by blast
  show ?thesis
    using t r f p1 p2 l(1,2) folder_total fr p3 by simp
qed

text \<open>
  The track returned is not always one at which the remainder is \<open><= 0\<close>. In double
  precision, on Campfire Drift with the folder catalog and \<open>Math.random() = 1 - 2^-52\<close>,
  the scores are 1.3, 1.15, 1.45 and 1.15, their sum is rounded to 5.050000000000001, and
  the remainder after the fourth track is \<open>2^-52\<close>: the loop runs to its end and the last
  track is returned.
\<close>

theorem pickNextTrack_draw_counterexample:
  "(4503599627370495 / 4503599627370496 :: real) < 1
   \<and> pickNextTrack binary64 folder_catalog CampfireDrift None
        (Some (4503599627370495 / 4503599627370496))
       = Some (folder_catalog ! 3)
   \<and> remainder binary64 (map (scoreTrack binary64 CampfireDrift None) folder_catalog)
        (js_mul binary64 (Some (4503599627370495 / 4503599627370496))
           (total_weight binary64
              (map (scoreTrack binary64 CampfireDrift None) folder_catalog)))
        4 = Some (1 / 4503599627370496)
   \<and> \<not> js_le binary64 (Some (1 / 4503599627370496)) (js_num binary64 0)"
proof -
  have r4: "remainder binary64 (map (scoreTrack binary64 CampfireDrift None) folder_catalog)
        (js_mul binary64 (Some (4503599627370495 / 4503599627370496))
           (total_weight binary64
              (map (scoreTrack binary64 CampfireDrift None) folder_catalog)))
        4 = Some (1 / 4503599627370496)"
    using folder_remainders(4) by (simp add: folder_total folder_draw eval_nat_numeral)
  have len: "length folder_catalog = 4"
    by (simp add: folder_catalog_def)
  have loop: "weightedPick_loop binary64 folder_catalog
        [Some (5854679515581645 / 4503599627370496), Some (2589569785738035 / 2251799813685248),
         Some (6530219459687219 / 4503599627370496), Some (2589569785738035 / 2251799813685248)]
        (Some (5685794529555251 / 1125899906842624)) = None"
    by (simp add: folder_catalog_def binary64_simps round53_values round53_0)
  have p: "pickNextTrack binary64 folder_catalog CampfireDrift None
        (Some (4503599627370495 / 4503599627370496))
       = Some (folder_catalog ! 3)"
  proof -
    have loop': "weightedPick_loop binary64 folder_catalog
        (map (scoreTrack binary64 CampfireDrift None) folder_catalog)
        (Some (5685794529555251 / 1125899906842624)) = None"
      unfolding folder_scores by (rule loop)
    show ?thesis
      using len
      by (simp add: pickNextTrack_def weightedPick_def Let_def folder_total loop'
          binary64_simps round53_values round53_0 item_at_def)
  qed
  show ?thesis
    using r4 p by (simp add: binary64_simps round53_0)
qed

text \<open>
  Claim C4. On a catalog of exactly one track \<open>pickNextTrack\<close> returns that track, for
  every station, every value of \<open>Math.random()\<close>, every arithmetic and every track now
  playing, the track itself included.
\<close>

theorem pickNextTrack_single: "pickNextTrack ar [t] st np rnd = Some t"
  by (simp add: pickNextTrack_def item_at_def)

text \<open>
  Claim C10. For a non-empty list of items, as many weights and a value of
  \<open>Math.random()\<close> in \<open>[0, 1)\<close>, \<open>weightedPick\<close> returns an item of the list. Negative
  weights count as 0, in the total and in the loop. When the total is not \<open><= 0\<close> and the
  loop runs to its end, the last item is returned. The empty list gives \<open>undefined\<close>.
  The weights may be \<open>NaN\<close>.
\<close>

theorem weightedPick_total:
  "(items \<noteq> [] \<longrightarrow> length ws = length items \<longrightarrow> 0 \<le> u \<longrightarrow> u < 1 \<longrightarrow>
      (\<exists>x. weightedPick exact items ws (Some u) = Some x \<and> x \<in> set items))
   \<and> weightedPick exact items ws rnd
       = weightedPick exact items (map (js_max exact (Some 0)) ws) rnd
   \<and> (\<not> js_le exact (total_weight exact ws) (Some 0) \<longrightarrow>
        weightedPick_loop exact items ws (js_mul exact rnd (total_weight exact ws)) = None \<longrightarrow>
        weightedPick exact items ws rnd = (if items = [] then None else Some (last items)))
   \<and> weightedPick exact [] ws rnd = None"
proof -
  have a: "items \<noteq> [] \<longrightarrow> length ws = length items \<longrightarrow> 0 \<le> u \<longrightarrow> u < 1 \<longrightarrow>
      (\<exists>x. weightedPick exact items ws (Some u) = Some x \<and> x \<in> set items)"
  proof (intro impI)
    assume h: "items \<noteq> []" "0 \<le> u" "u < 1"
    from weightedPick_mem[OF h(1) exact_index[OF h(2,3,1)]]
    show "\<exists>x. weightedPick exact items ws (Some u) = Some x \<and> x \<in> set items" .
  qed
  have b: "weightedPick exact items ws rnd
       = weightedPick exact items (map (js_max exact (Some 0)) ws) rnd"
    by (simp add: weightedPick_def Let_def total_weight_clamped weightedPick_loop_clamped)
  have c: "\<not> js_le exact (total_weight exact ws) (Some 0) \<longrightarrow>
        weightedPick_loop exact items ws (js_mul exact rnd (total_weight exact ws)) = None \<longrightarrow>
        weightedPick exact items ws rnd = (if items = [] then None else Some (last items))"
  proof (intro impI)
    assume pos: "\<not> js_le exact (total_weight exact ws) (Some 0)"
      and ex: "weightedPick_loop exact items ws (js_mul exact rnd (total_weight exact ws)) = None"
    have "weightedPick exact items ws rnd = item_at items (int (length items) - 1)"
      using pos ex by (simp add: weightedPick_def exact_simps(1))
    then show "weightedPick exact items ws rnd = (if items = [] then None else Some (last items))"
      by (cases "items = []") (simp_all add: item_at_last, simp add: item_at_def)
  qed
  have d: "weightedPick exact [] ws rnd = None"
    by (auto simp: weightedPick_def item_at_def Let_def split: option.splits)
  show ?thesis
    by (intro conjI a b c d)
qed

theorem weightedPick_total_witness:
  "[''a'', ''b''] \<noteq> [] \<and> length [Some (- 1), Some (2 :: real)] = length [''a'', ''b'']
   \<and> (0::real) \<le> 1 / 2 \<and> (1 / 2 :: real) < 1
   \<and> weightedPick exact [''a'', ''b''] [Some (- 1), Some 2] (Some (1 / 2)) = Some ''b''
   \<and> \<not> js_le exact (total_weight exact [Some 1, Some 5]) (Some 0)
   \<and> weightedPick_loop exact [''a''] [Some 1, Some 5]
        (js_mul exact (Some (1 / 2)) (total_weight exact [Some 1, Some 5])) = None
   \<and> weightedPick exact [''a''] [Some 1, Some 5] (Some (1 / 2)) = Some ''a''"
  using weightedPick_total[of "[''a'', ''b'']" "[Some (- 1), Some 2]" "1 / 2"]
    weightedPick_total[of "[''a'']" "[Some 1, Some 5]" _ "Some (1 / 2)"]
  by (simp add: weightedPick_def item_at_def total_weight_def exact_simps)

section \<open>Properties of the engine\<close>

subsection \<open>Auxiliary facts\<close>

lemma update_deck_frame [simp]:
  "render (update_deck i f s) = render s"
  "activeRef (update_deck i f s) = activeRef s"
  "tickRef (update_deck i f s) = tickRef s"
  "pendingFadeRef (update_deck i f s) = pendingFadeRef s"
  "now (update_deck i f s) = now s"
  "timers (update_deck i f s) = timers s"
  by (simp_all add: update_deck_def)

lemma ensureCtx_frame [simp]:
  "render (ensureCtx env w s) = render s"
  "activeRef (ensureCtx env w s) = activeRef s"
  "tickRef (ensureCtx env w s) = tickRef s"
  "pendingFadeRef (ensureCtx env w s) = pendingFadeRef s"
  "now (ensureCtx env w s) = now s"
  "timers (ensureCtx env w s) = timers s"
  by (simp_all add: ensureCtx_def Let_def)

lemma startTick_frame [simp]:
  "render (startTick env s) = render s"
  "graphRef (startTick env s) = graphRef s"
  "activeRef (startTick env s) = activeRef s"
  "pendingFadeRef (startTick env s) = pendingFadeRef s"
  "now (startTick env s) = now s"
  "timers (startTick env s) = timers s"
  by (simp_all add: startTick_def)

lemma stopTick_frame [simp]:
  "render (stopTick s) = render s"
  "graphRef (stopTick s) = graphRef s"
  "activeRef (stopTick s) = activeRef s"
  "tickRef (stopTick s) = None"
  "pendingFadeRef (stopTick s) = pendingFadeRef s"
  "now (stopTick s) = now s"
  "timers (stopTick s) = timers s"
  by (simp_all add: stopTick_def)

lemma setIsPlaying_frame [simp]:
  "render (setIsPlaying b s) = (render s)\<lparr>isPlaying := b\<rparr>"
  "graphRef (setIsPlaying b s) = graphRef s"
  "activeRef (setIsPlaying b s) = activeRef s"
  "tickRef (setIsPlaying b s) = tickRef s"
  "pendingFadeRef (setIsPlaying b s) = pendingFadeRef s"
  "now (setIsPlaying b s) = now s"
  "timers (setIsPlaying b s) = timers s"
  by (simp_all add: setIsPlaying_def)

lemma setNowPlaying_frame [simp]:
  "render (setNowPlaying t s) = (render s)\<lparr>nowPlaying := t\<rparr>"
  "graphRef (setNowPlaying t s) = graphRef s"
  "activeRef (setNowPlaying t s) = activeRef s"
  "tickRef (setNowPlaying t s) = tickRef s"
  "pendingFadeRef (setNowPlaying t s) = pendingFadeRef s"
  "now (setNowPlaying t s) = now s"
  "timers (setNowPlaying t s) = timers s"
  by (simp_all add: setNowPlaying_def)

lemma setTimeout_frame [simp]:
  "render (setTimeout d a s) = render s"
  "graphRef (setTimeout d a s) = graphRef s"
  "activeRef (setTimeout d a s) = activeRef s"
  "tickRef (setTimeout d a s) = tickRef s"
  "pendingFadeRef (setTimeout d a s) = pendingFadeRef s"
  "now (setTimeout d a s) = now s"
  "timers (setTimeout d a s) = timers s @ [(now s + d, a)]"
  by (simp_all add: setTimeout_def)

lemma playTrack_flag:
  "pendingFadeRef (snd (playTrack env t c w s)) = pendingFadeRef s"
  "now (snd (playTrack env t c w s)) = now s"
  "ReleasePendingFade \<in> snd ` set (timers (snd (playTrack env t c w s)))
     \<longleftrightarrow> ReleasePendingFade \<in> snd ` set (timers s)"
  by (auto simp: playTrack_def Let_def split: option.splits)

lemma next_track_flag:
  "pendingFadeRef (snd (next_track env c w s)) = pendingFadeRef s"
  "now (snd (next_track env c w s)) = now s"
  "ReleasePendingFade \<in> snd ` set (timers (snd (next_track env c w s)))
     \<longleftrightarrow> ReleasePendingFade \<in> snd ` set (timers s)"
  by (simp_all add: next_track_def playTrack_flag split: option.splits)

lemma fire_flag: "pendingFadeRef (fire a s) = (pendingFadeRef s \<and> a \<noteq> ReleasePendingFade)"
  by (cases a) simp_all

lemma foldl_fire_flag:
  "pendingFadeRef (foldl (\<lambda>s' e. fire (snd e) s') s es)
     = (pendingFadeRef s \<and> ReleasePendingFade \<notin> snd ` set es)"
  by (induction es arbitrary: s) (auto simp: fire_flag)

lemma elapse_flag:
  "pendingFadeRef (elapse dt s)
     = (pendingFadeRef s \<and> ReleasePendingFade \<notin> snd ` {e \<in> set (timers s). fst e \<le> now s + dt})"
  by (simp add: elapse_def Let_def foldl_fire_flag)

lemma setCrossfadeSec_frame [simp]:
  "render (setCrossfadeSec v s) = (render s)\<lparr>crossfadeSec := v\<rparr>"
  "graphRef (setCrossfadeSec v s) = graphRef s"
  "activeRef (setCrossfadeSec v s) = activeRef s"
  "tickRef (setCrossfadeSec v s) = tickRef s"
  "pendingFadeRef (setCrossfadeSec v s) = pendingFadeRef s"
  by (simp_all add: setCrossfadeSec_def)

lemma setRadioMode_frame [simp]:
  "render (setRadioMode b s) = (render s)\<lparr>radioMode := b\<rparr>"
  "graphRef (setRadioMode b s) = graphRef s"
  "activeRef (setRadioMode b s) = activeRef s"
  "tickRef (setRadioMode b s) = tickRef s"
  "pendingFadeRef (setRadioMode b s) = pendingFadeRef s"
  by (simp_all add: setRadioMode_def)

lemma engine_track_sel:
  "id_track take_track = ''a7f3k9x2v5mhj3x8q15''"
  "tags take_track = [''folder:takemp3'']"
  "weight take_track = Some 1"
  "id_track birds_track = ''b1c8n4z6w0mhj3x8q15''"
  "tags birds_track = [''birds'', ''folder:birdsmp3'']"
  "weight birds_track = Some 1"
  by (simp_all add: take_track_def birds_track_def archive_track_sel)

lemma sample_tracks_differ: "birds_track \<noteq> take_track"
proof
  assume "birds_track = take_track"
  then have "id_track birds_track = id_track take_track"
    by simp
  then show False by (simp add: engine_track_sel)
qed

text \<open>The sample engine after its first \<open>play\<close>, written out.\<close>

lemma started_engine_eq:
  "started_engine =
     \<lparr>render = loaded_render\<lparr>nowPlaying := Some (take_track), isPlaying := True\<rparr>,
      graphRef = Some
        \<lparr>ctx = Running,
         deckA = \<lparr>audio = \<lparr>src = [], currentTime = 0, duration = NaN, paused = True,
                           audio_volume = 0.9, onended = None\<rparr>,
                  gain = 0, ramp = None, track = None\<rparr>,
         deckB = \<lparr>audio = \<lparr>src = url (take_track), currentTime = 0,
                           duration = Finite 120, paused = False, audio_volume = 0.9,
                           onended = Some loaded_render\<rparr>,
                  gain = 1, ramp = None, track = Some (take_track)\<rparr>\<rparr>,
      activeRef = DeckB, tickRef = Some loaded_render, pendingFadeRef = False, now = 0,
      timers = []\<rparr>"
  by (simp add: started_engine_def play_def playTrack_def ensureCtx_def update_deck_def
      activeDeck_def inactiveDeck_def deck_of_def other_deck_def startTick_def
      setIsPlaying_def setNowPlaying_def createDeck_def pause_audio_def
      initial_engine_def pickNextTrack_def weightedPick_def item_at_def scoreTrack_def
      is_repeat_def engine_track_sel sample_world_def Let_def station_def
      loaded_render_def initial_render_def STATIONS_def AllField_def CampfireDrift_def KitchenRadio_def DawnSoundTrail_def NightTrail_def
      total_weight_def plus_def to_number_def exact_simps)


lemmas eval_defs = play_def playTrack_def next_track_def pause_def ensureCtx_def update_deck_def
  activeDeck_def inactiveDeck_def deck_of_def other_deck_def startTick_def stopTick_def
  setIsPlaying_def setNowPlaying_def setTimeout_def pause_audio_def rampGain_def
  pickNextTrack_def weightedPick_def item_at_def scoreTrack_def is_repeat_def
  engine_track_sel sample_world_def Let_def station_def
  loaded_render_def initial_render_def STATIONS_def AllField_def CampfireDrift_def KitchenRadio_def DawnSoundTrail_def NightTrail_def
  total_weight_def plus_def to_number_def exact_simps

text \<open>
  The engine after the overtaken Next, written out: the monitor holds the snapshot of
  the render in which Next was clicked, with \<open>isPlaying\<close> true and a crossfade of 6.
\<close>

lemma overtaken_engine_fields:
  "tickRef overtaken_engine = Some (render started_engine)"
  "activeRef overtaken_engine = DeckA"
  "pendingFadeRef overtaken_engine = False"
  "nowPlaying (render overtaken_engine) = Some (birds_track)"
  "isPlaying (render overtaken_engine)"
  "\<exists>g. graphRef overtaken_engine = Some g \<and> duration (audio (deckA g)) = Finite 120
        \<and> currentTime (audio (deckA g)) = 0"
  by (simp_all add: overtaken_engine_def started_engine_eq eval_defs)

subsection \<open>The monitor loop\<close>

text \<open>
  The callback calls \<open>next(true)\<close> only under the conditions it tests on the snapshot it
  closes over, and it sets the flag; with the flag set it does nothing. The transition
  leaves the flag alone, and once its promise has settled the flag (with no release
  pending before) stays set for less than 500 ms and is clear from 500 ms on.
\<close>

lemma tick_callback_guard:
  "(snd (tick_callback env s) \<longrightarrow>
      (\<exists>deck dur. activeDeck s = Some deck \<and> duration (audio deck) = Finite dur \<and> 0 < dur
         \<and> dur - currentTime (audio deck) \<le> crossfadeSec env + 0.25)
      \<and> \<not> pendingFadeRef s \<and> radioMode env \<and> isPlaying env
      \<and> fst (tick_callback env s) = s\<lparr>pendingFadeRef := True\<rparr>)
   \<and> (pendingFadeRef s \<longrightarrow> tick_callback env s = (s, False))
   \<and> pendingFadeRef (snd (next_track env True w s)) = pendingFadeRef s
   \<and> (pendingFadeRef s \<longrightarrow> ReleasePendingFade \<notin> snd ` set (timers s) \<longrightarrow> 0 \<le> dt \<longrightarrow> dt < 500 \<longrightarrow>
        pendingFadeRef (elapse dt (auto_advance env w s)))
   \<and> (500 \<le> dt \<longrightarrow> \<not> pendingFadeRef (elapse dt (auto_advance env w s)))"
proof -
  have a: "snd (tick_callback env s) \<longrightarrow>
      (\<exists>deck dur. activeDeck s = Some deck \<and> duration (audio deck) = Finite dur \<and> 0 < dur
         \<and> dur - currentTime (audio deck) \<le> crossfadeSec env + 0.25)
      \<and> \<not> pendingFadeRef s \<and> radioMode env \<and> isPlaying env
      \<and> fst (tick_callback env s) = s\<lparr>pendingFadeRef := True\<rparr>"
    by (auto simp: tick_callback_def Let_def split: option.splits jsnum.splits if_splits)
  have b: "pendingFadeRef s \<longrightarrow> tick_callback env s = (s, False)"
    by (auto simp: tick_callback_def Let_def split: option.splits jsnum.splits)
  have c: "pendingFadeRef (snd (next_track env True w s)) = pendingFadeRef s"
    by (rule next_track_flag)
  have d: "pendingFadeRef s \<longrightarrow> ReleasePendingFade \<notin> snd ` set (timers s) \<longrightarrow> 0 \<le> dt \<longrightarrow> dt < 500 \<longrightarrow>
        pendingFadeRef (elapse dt (auto_advance env w s))"
    using next_track_flag(3)[of env True w s]
    by (auto simp: elapse_flag auto_advance_def next_track_flag(1,2))
  have e: "500 \<le> dt \<longrightarrow> \<not> pendingFadeRef (elapse dt (auto_advance env w s))"
  proof
    assume dt: "500 \<le> dt"
    let ?s' = "snd (next_track env True w s)"
    have "(now ?s' + 500, ReleasePendingFade) \<in> set (timers (auto_advance env w s))"
      by (simp add: auto_advance_def)
    moreover have "now ?s' + 500 \<le> now (auto_advance env w s) + dt"
      using dt by (simp add: auto_advance_def)
    ultimately have "ReleasePendingFade
        \<in> snd ` {e \<in> set (timers (auto_advance env w s)). fst e \<le> now (auto_advance env w s) + dt}"
      by force
    then show "\<not> pendingFadeRef (elapse dt (auto_advance env w s))"
      by (simp only: elapse_flag) simp
  qed
  show ?thesis
    by (intro conjI a b c d e)
qed

text \<open>
  Claim C5, at an input where the code departs from it. The monitor started by the
  overtaken Next tests the values of the render it closes over, not the session's: with
  the session's crossfade at 0 and radio mode off, and the playing deck 6.2 seconds
  before its end (more than the 0.25 seconds that the claim allows), the firing of the
  interval sets the flag and calls \<open>next(true)\<close>.
\<close>

theorem monitor_stale_closure:
  "crossfadeSec (render stale_monitor_engine) = 0
   \<and> \<not> radioMode (render stale_monitor_engine)
   \<and> \<not> pendingFadeRef stale_monitor_engine
   \<and> (\<exists>deck. activeDeck stale_monitor_engine = Some deck
         \<and> duration (audio deck) = Finite 120 \<and> currentTime (audio deck) = 113.8)
   \<and> \<not> (120 - 113.8 \<le> crossfadeSec (render stale_monitor_engine) + 0.25)
   \<and> interval_fire stale_monitor_engine
       = (stale_monitor_engine\<lparr>pendingFadeRef := True\<rparr>, True)"
proof -
  obtain g where g: "graphRef overtaken_engine = Some g" "duration (audio (deckA g)) = Finite 120"
    using overtaken_engine_fields(6) by blast
  have a: "crossfadeSec (render stale_monitor_engine) = 0"
    "\<not> radioMode (render stale_monitor_engine)"
    "\<not> pendingFadeRef stale_monitor_engine"
    "tickRef stale_monitor_engine = Some (render started_engine)"
    by (simp_all add: stale_monitor_engine_def overtaken_engine_fields)
  have d: "activeDeck stale_monitor_engine
             = Some ((deckA g)\<lparr>audio := (audio (deckA g))\<lparr>currentTime := 113.8\<rparr>\<rparr>)"
    by (simp add: stale_monitor_engine_def overtaken_engine_fields g activeDeck_def
        update_deck_def deck_of_def setRadioMode_def setCrossfadeSec_def)
  have e: "radioMode (render started_engine)" "isPlaying (render started_engine)"
    "crossfadeSec (render started_engine) = 6"
    by (simp_all add: started_engine_eq loaded_render_def initial_render_def AllField_def)
  have f: "interval_fire stale_monitor_engine
       = (stale_monitor_engine\<lparr>pendingFadeRef := True\<rparr>, True)"
    by (simp add: interval_fire_def tick_callback_def a d e g)
  have h: "\<exists>deck. activeDeck stale_monitor_engine = Some deck
         \<and> duration (audio deck) = Finite 120 \<and> currentTime (audio deck) = 113.8"
    by (simp add: d g)
  have i: "\<not> (120 - 113.8 \<le> crossfadeSec (render stale_monitor_engine) + 0.25)"
    by (simp add: a)
  show ?thesis
    by (intro conjI a(1-3) h i f)
qed

text \<open>
  The same closure keeps the monitor that an ordinary \<open>play\<close> starts from ever calling
  \<open>next(true)\<close>: it closes over the render before playback, in which \<open>isPlaying\<close> is
  false.
\<close>

lemma interval_fire_after_play:
  "isPlaying (render near_end_engine) \<and> radioMode (render near_end_engine)
   \<and> interval_fire near_end_engine = (near_end_engine, False)"
  by (simp add: interval_fire_def tick_callback_def near_end_engine_def started_engine_eq
      activeDeck_def update_deck_def deck_of_def loaded_render_def initial_render_def)

subsection \<open>Transport commands\<close>

text \<open>
  Claim C6. With an empty catalog, \<open>play\<close> and \<open>next\<close> (with either value of
  \<open>useCrossfade\<close>) return at once: they fulfil and leave the whole state of the engine as
  it was, so no track is selected and no playback starts.
\<close>

theorem empty_catalog_noop:
  "tracks env = [] \<Longrightarrow> play env w s = (Fulfilled, s) \<and> next_track env c w s = (Fulfilled, s)"
  by (simp add: play_def next_track_def)

theorem empty_catalog_noop_witness:
  "tracks ((render started_engine)\<lparr>tracks := []\<rparr>) = []
   \<and> play ((render started_engine)\<lparr>tracks := []\<rparr>) sample_world started_engine
       = (Fulfilled, started_engine)
   \<and> next_track ((render started_engine)\<lparr>tracks := []\<rparr>) True sample_world started_engine
       = (Fulfilled, started_engine)"
  using empty_catalog_noop[of "(render started_engine)\<lparr>tracks := []\<rparr>" sample_world
      started_engine True]
  by simp

text \<open>
  Claim C7, as the code has it. With a non-empty catalog, an active deck that holds a
  track and is paused, and a \<open>cur.audio.play()\<close> that fulfils, \<open>play\<close> fulfils, does not
  depend on the value of \<open>Math.random()\<close> (no track is selected), leaves the track now
  playing, the active deck's role, the other deck and the timeouts as they were, changes
  nothing of the active deck but \<open>paused\<close> (same track, position, gain and ramp), sets
  \<open>isPlaying\<close>, and leaves the monitor loop running: started with this call's snapshot
  when it was stopped, the running one otherwise.
\<close>

theorem play_resumes:
  assumes "tracks env \<noteq> []" and "activeDeck s = Some cur" and "track cur \<noteq> None"
    and "paused (audio cur)" and "resume_ok w"
  shows "fst (play env w s) = Fulfilled
    \<and> play env (w\<lparr>math_random := r\<rparr>) s = play env w s
    \<and> nowPlaying (render (snd (play env w s))) = nowPlaying (render s)
    \<and> isPlaying (render (snd (play env w s)))
    \<and> activeRef (snd (play env w s)) = activeRef s
    \<and> activeDeck (snd (play env w s)) = Some (cur\<lparr>audio := (audio cur)\<lparr>paused := False\<rparr>\<rparr>)
    \<and> inactiveDeck (snd (play env w s)) = inactiveDeck s
    \<and> timers (snd (play env w s)) = timers s
    \<and> tickRef (snd (play env w s)) = Some (case tickRef s of None \<Rightarrow> env | Some e \<Rightarrow> e)"
proof -
  from assms(2) obtain g where g: "graphRef s = Some g" "deck_of (activeRef s) g = cur"
    by (auto simp: activeDeck_def)
  have act: "activeDeck (ensureCtx env w s) = Some cur"
    using g by (simp add: activeDeck_def ensureCtx_def Let_def deck_of_def split: DeckId.splits)
  have p: "play env w' s =
      (Fulfilled, startTick env (setIsPlaying True (update_deck (activeRef s)
          (\<lambda>d. d\<lparr>audio := (audio d)\<lparr>paused := False\<rparr>\<rparr>) (ensureCtx env w' s))))"
    if "resume_ok w'" "activeDeck (ensureCtx env w' s) = Some cur" for w'
    using that assms(1,3,4) by (simp add: play_def Let_def)
  have act': "activeDeck (ensureCtx env (w\<lparr>math_random := r\<rparr>) s) = Some cur"
    using g by (simp add: activeDeck_def ensureCtx_def Let_def deck_of_def split: DeckId.splits)
  have e: "ensureCtx env (w\<lparr>math_random := r\<rparr>) s = ensureCtx env w s"
    by (cases "graphRef s") (simp_all add: ensureCtx_def Let_def)
  have p1: "play env w s = (Fulfilled, startTick env (setIsPlaying True (update_deck (activeRef s)
          (\<lambda>d. d\<lparr>audio := (audio d)\<lparr>paused := False\<rparr>\<rparr>) (ensureCtx env w s))))"
    using p[of w] assms(5) act by simp
  have p2: "play env (w\<lparr>math_random := r\<rparr>) s = play env w s"
    using p[of "w\<lparr>math_random := r\<rparr>"] assms(5) act' p1 e by simp
  have a1: "activeDeck (snd (play env w s)) = Some (cur\<lparr>audio := (audio cur)\<lparr>paused := False\<rparr>\<rparr>)"
    using g by (cases "activeRef s")
      (simp_all add: p1 activeDeck_def update_deck_def ensureCtx_def Let_def deck_of_def)
  have a2: "inactiveDeck (snd (play env w s)) = inactiveDeck s"
    using g by (cases "activeRef s")
      (simp_all add: p1 inactiveDeck_def update_deck_def ensureCtx_def Let_def deck_of_def other_deck_def)
  have a3: "tickRef (snd (play env w s)) = Some (case tickRef s of None \<Rightarrow> env | Some e \<Rightarrow> e)"
    by (cases "tickRef s") (simp_all add: p1 startTick_def)
  show ?thesis
    using p2 a1 a2 a3 by (simp add: p1)
qed

theorem play_resumes_witness:
  "tracks (render paused_engine) \<noteq> []
   \<and> activeDeck paused_engine = Some (the (activeDeck paused_engine))
   \<and> track (the (activeDeck paused_engine)) \<noteq> None
   \<and> paused (audio (the (activeDeck paused_engine)))
   \<and> resume_ok sample_world
   \<and> fst (play (render paused_engine) sample_world paused_engine) = Fulfilled
   \<and> nowPlaying (render (snd (play (render paused_engine) sample_world paused_engine)))
       = Some (take_track)
   \<and> isPlaying (render (snd (play (render paused_engine) sample_world paused_engine)))
   \<and> tickRef (snd (play (render paused_engine) sample_world paused_engine))
       = Some (render paused_engine)"
proof -
  have h: "tracks (render paused_engine) \<noteq> []"
    "activeDeck paused_engine = Some (the (activeDeck paused_engine))"
    "track (the (activeDeck paused_engine)) \<noteq> None"
    "paused (audio (the (activeDeck paused_engine)))"
    "resume_ok sample_world"
    by (simp_all add: paused_engine_def started_engine_eq eval_defs)
  have k: "tickRef paused_engine = None"
    "nowPlaying (render paused_engine) = Some (take_track)"
    by (simp_all add: paused_engine_def started_engine_eq eval_defs)
  from play_resumes[OF h] k have
    "fst (play (render paused_engine) sample_world paused_engine) = Fulfilled"
    "nowPlaying (render (snd (play (render paused_engine) sample_world paused_engine)))
       = Some (take_track)"
    "isPlaying (render (snd (play (render paused_engine) sample_world paused_engine)))"
    "tickRef (snd (play (render paused_engine) sample_world paused_engine))
       = Some (render paused_engine)"
    by simp_all
  with h show ?thesis
    by (intro conjI)
qed

text \<open>
  A paused, loaded active deck does not always make \<open>play\<close> resume. When
  \<open>cur.audio.play()\<close> rejects, \<open>play\<close> selects a track: here the track now playing
  changes from \<open>a\<close> to \<open>b\<close>. And with an empty catalog \<open>play\<close> does nothing at all: the
  engine stays paused.
\<close>

theorem play_resumes_counterexample:
  "(\<exists>cur. activeDeck paused_engine = Some cur \<and> track cur \<noteq> None \<and> paused (audio cur))
   \<and> nowPlaying (render paused_engine) = Some (take_track)
   \<and> nowPlaying (render (snd (play (render paused_engine) (sample_world\<lparr>resume_ok := False\<rparr>)
                                 paused_engine)))
       = Some (birds_track)
   \<and> birds_track \<noteq> take_track
   \<and> \<not> isPlaying (render (snd (play ((render paused_engine)\<lparr>tracks := []\<rparr>) sample_world
                                    paused_engine)))"
proof -
  have a: "\<exists>cur. activeDeck paused_engine = Some cur \<and> track cur \<noteq> None \<and> paused (audio cur)"
    by (simp add: paused_engine_def started_engine_eq eval_defs)
  have b: "nowPlaying (render paused_engine) = Some (take_track)"
    by (simp add: paused_engine_def started_engine_eq eval_defs)
  have c: "nowPlaying (render (snd (play (render paused_engine)
             (sample_world\<lparr>resume_ok := False\<rparr>) paused_engine)))
       = Some (birds_track)"
    by (simp add: paused_engine_def started_engine_eq eval_defs)
  have d: "\<not> isPlaying (render (snd (play ((render paused_engine)\<lparr>tracks := []\<rparr>) sample_world
                                    paused_engine)))"
    by (simp add: play_def paused_engine_def started_engine_eq eval_defs)
  show ?thesis
    by (intro conjI a b c d sample_tracks_differ)
qed

text \<open>
  Claim C8. After \<open>stop\<close>, both decks (where the audio graph exists) are paused and have
  gain 0, the monitor loop is stopped, \<open>isPlaying\<close> is false, and the rest of the React
  state, the track now playing included, is as before.
\<close>

theorem stop_effect:
  "(case graphRef (stop s) of
      None \<Rightarrow> graphRef s = None
    | Some g \<Rightarrow> graphRef s \<noteq> None
        \<and> paused (audio (deckA g)) \<and> paused (audio (deckB g))
        \<and> gain (deckA g) = 0 \<and> gain (deckB g) = 0)
   \<and> tickRef (stop s) = None
   \<and> \<not> isPlaying (render (stop s))
   \<and> nowPlaying (render (stop s)) = nowPlaying (render s)"
  by (cases "graphRef s") (simp_all add: stop_def update_deck_def pause_audio_def)

theorem stop_effect_witness:
  "(\<exists>g. graphRef (stop started_engine) = Some g
        \<and> paused (audio (deckA g)) \<and> paused (audio (deckB g))
        \<and> gain (deckA g) = 0 \<and> gain (deckB g) = 0)
   \<and> isPlaying (render started_engine)
   \<and> tickRef started_engine \<noteq> None
   \<and> tickRef (stop started_engine) = None
   \<and> \<not> isPlaying (render (stop started_engine))
   \<and> nowPlaying (render (stop started_engine)) = Some (take_track)"
proof -
  have g: "graphRef (stop started_engine) \<noteq> None"
    by (simp add: stop_def update_deck_def started_engine_eq)
  have k: "isPlaying (render started_engine)" "tickRef started_engine \<noteq> None"
    "nowPlaying (render started_engine) = Some (take_track)"
    by (simp_all add: started_engine_eq)
  from stop_effect[of started_engine] g k show ?thesis
    by (cases "graphRef (stop started_engine)") simp_all
qed

subsection \<open>Station change\<close>





end
